theory Spec2Isabelle
  imports Complex_Main "HOL-Library.Word"
begin

unbundle bit_operations_syntax

section \<open>Data model\<close>

text \<open>
  Shallow embedding of the orchestrator's control plane:
  \<^verbatim>\<open>services/orchestrator/core/task_scheduler.py\<close> (class TaskScheduler),
  \<^verbatim>\<open>services/orchestrator/core/agent_manager.py\<close> (class AgentManager),
  \<^verbatim>\<open>services/orchestrator/services/scheduler_service.py\<close> (priority score),
  \<^verbatim>\<open>shared/events/consumers.py\<close> (class EventConsumer) and
  \<^verbatim>\<open>services/orchestrator/services/webhook_service.py\<close> (payload signature).

  UUIDs are natural numbers, a \<^verbatim>\<open>datetime\<close> is an integer time stamp, and every
  method that reads \<^verbatim>\<open>datetime.utcnow()\<close> takes that reading as the parameter
  \<open>now\<close>. The database session is a value that is passed in and returned; rows are
  kept in lists in table order, looked up by primary key. Counters of the metrics
  registry and log lines are not part of the state.
\<close>

type_synonym uuid = nat
type_synonym datetime = int

text \<open>The enumerations of \<^verbatim>\<open>shared/models/schemas.py\<close>.\<close>

datatype AgentType = ORCHESTRATOR | WORKER | SPECIALIST | RESEARCH | ANALYSIS | COORDINATOR

datatype AgentStatus = IDLE | BUSY | OFFLINE | AGENT_FAILED | STARTING | STOPPING

datatype TaskStatus = PENDING | QUEUED | IN_PROGRESS | COMPLETED | FAILED | CANCELLED | RETRYING

text \<open>
  The columns of \<^verbatim>\<open>agents\<close> that the modelled methods read or write
  (\<^verbatim>\<open>capabilities["skills"]\<close> is the field \<open>skills\<close>).
\<close>

record Agent =
  a_id :: uuid
  a_type :: AgentType
  a_status :: AgentStatus
  skills :: "string list"
  a_updated_at :: datetime
  last_heartbeat :: "datetime option"

text \<open>
  The keys of the JSON column \<^verbatim>\<open>tasks.metadata\<close> (the attribute
  \<^verbatim>\<open>metadata_\<close> of the class) that the scheduler uses; a key that is absent
  from the dictionary is \<open>None\<close>.
\<close>

record Metadata =
  md_trace_id :: "string option"
  md_agent_type :: "string option"
  md_retry_count :: "int option"
  md_last_error :: "string option"
  md_progress :: "rat option"
  md_progress_message :: "string option"

text \<open>
  \<^verbatim>\<open>tasks.output_data\<close> is \<^verbatim>\<open>{}\<close>, \<^verbatim>\<open>{"result": r}\<close> or
  \<^verbatim>\<open>{"error": e}\<close>; a result is an opaque string here.
\<close>

datatype OutputData = NoOutput | ResultOutput string | ErrorOutput string

text \<open>
  The columns of \<^verbatim>\<open>tasks\<close>. The scheduler also sets
  \<^verbatim>\<open>task.updated_at\<close>, which is not a column of the table and is not kept.
\<close>

record Task =
  t_id :: uuid
  agent_id :: "uuid option"
  description :: string
  status :: TaskStatus
  priority :: int
  input_data :: string
  output_data :: OutputData
  metadata :: Metadata
  deadline :: "datetime option"
  created_at :: datetime
  started_at :: "datetime option"
  completed_at :: "datetime option"

text \<open>
  The events that the scheduler hands to \<^verbatim>\<open>event_producer\<close>, with the arguments
  of the \<^verbatim>\<open>publish_task_*\<close> call (the producer adds an event id and a time stamp).
\<close>

datatype Event =
    TaskAssigned uuid uuid string int "datetime option" string "string option"
  | TaskStarted uuid "uuid option" "string option"
  | TaskProgress uuid "uuid option" rat "string option" "string option"
  | TaskCompleted uuid "uuid option" string "string option"
  | TaskFailed uuid "uuid option" string int "string option"

text \<open>
  The session: the tables \<^verbatim>\<open>tasks\<close>, \<^verbatim>\<open>agents\<close> and
  \<^verbatim>\<open>task_dependencies\<close> (rows \<open>(task_id, depends_on_task_id)\<close>), and the events
  published so far, oldest first.
\<close>

record Session =
  tasks :: "Task list"
  agents :: "Agent list"
  task_dependencies :: "(uuid \<times> uuid) list"
  published :: "Event list"

text \<open>The constructor arguments of \<^verbatim>\<open>TaskScheduler\<close>.\<close>

record TaskScheduler =
  default_timeout :: int
  max_retries :: int
  retry_delay :: int
  queue_max_size :: int

section \<open>Session access\<close>

definition get_task :: "Session \<Rightarrow> uuid \<Rightarrow> Task option" where
  "get_task session task_id = find (\<lambda>t. t_id t = task_id) (tasks session)"

definition get_agent :: "Session \<Rightarrow> uuid \<Rightarrow> Agent option" where
  "get_agent session agent = find (\<lambda>a. a_id a = agent) (agents session)"

text \<open>Writing a changed row back at commit: the row with the same primary key is replaced.\<close>

definition put_task :: "Task \<Rightarrow> Session \<Rightarrow> Session" where
  "put_task task session =
     session\<lparr>tasks := map (\<lambda>t. if t_id t = t_id task then task else t) (tasks session)\<rparr>"

definition put_agent :: "Agent \<Rightarrow> Session \<Rightarrow> Session" where
  "put_agent agent session =
     session\<lparr>agents := map (\<lambda>a. if a_id a = a_id agent then agent else a) (agents session)\<rparr>"

definition publish :: "Event \<Rightarrow> Session \<Rightarrow> Session" where
  "publish ev session = session\<lparr>published := published session @ [ev]\<rparr>"

text \<open>
  The block \<^verbatim>\<open>if task.agent_id: agent = await session.get(Agent, task.agent_id);
  if agent: agent.status = IDLE; agent.updated_at = utcnow()\<close> shared by
  \<^verbatim>\<open>complete_task\<close>, \<^verbatim>\<open>fail_task\<close> and \<^verbatim>\<open>cancel_task\<close>; it reads the
  task's \<^verbatim>\<open>agent_id\<close> as it is when the block runs.
\<close>

definition free_agent :: "datetime \<Rightarrow> Task \<Rightarrow> Session \<Rightarrow> Session" where
  "free_agent now task session =
     (case agent_id task of
        None \<Rightarrow> session
      | Some owner \<Rightarrow>
          (case get_agent session owner of
             None \<Rightarrow> session
           | Some agent \<Rightarrow> put_agent (agent\<lparr>a_status := IDLE, a_updated_at := now\<rparr>) session))"

section \<open>TaskScheduler\<close>

definition assign_task :: "Session \<Rightarrow> datetime \<Rightarrow> uuid \<Rightarrow> uuid \<Rightarrow> bool \<times> Session" where
  "assign_task session now task_id agent =
     (case get_task session task_id of
        None \<Rightarrow> (False, session)
      | Some task \<Rightarrow>
          if status task \<notin> {PENDING, QUEUED} then (False, session)
          else
            (case get_agent session agent of
               None \<Rightarrow> (False, session)
             | Some ag \<Rightarrow>
                 if a_status ag \<noteq> IDLE then (False, session)
                 else
                   let task' = task\<lparr>agent_id := Some agent, status := QUEUED\<rparr>;
                       ag' = ag\<lparr>a_status := BUSY, a_updated_at := now\<rparr>
                   in (True,
                       publish (TaskAssigned task_id agent (description task') (priority task')
                                  (deadline task') (input_data task')
                                  (md_trace_id (metadata task')))
                         (put_agent ag' (put_task task' session)))))"

definition start_task :: "Session \<Rightarrow> datetime \<Rightarrow> uuid \<Rightarrow> bool \<times> Session" where
  "start_task session now task_id =
     (case get_task session task_id of
        None \<Rightarrow> (False, session)
      | Some task \<Rightarrow>
          if status task \<noteq> QUEUED then (False, session)
          else
            let task' = task\<lparr>status := IN_PROGRESS, started_at := Some now\<rparr>
            in (True,
                publish (TaskStarted task_id (agent_id task') (md_trace_id (metadata task')))
                  (put_task task' session)))"

text \<open>\<^verbatim>\<open>if message:\<close> is false for \<^verbatim>\<open>None\<close> and for the empty string.\<close>

definition update_task_progress ::
  "Session \<Rightarrow> datetime \<Rightarrow> uuid \<Rightarrow> rat \<Rightarrow> string option \<Rightarrow> bool \<times> Session" where
  "update_task_progress session now task_id progress message =
     (case get_task session task_id of
        None \<Rightarrow> (False, session)
      | Some task \<Rightarrow>
          if status task \<noteq> IN_PROGRESS then (False, session)
          else
            let md = (metadata task)\<lparr>md_progress := Some progress\<rparr>;
                md' = (case message of
                         None \<Rightarrow> md
                       | Some m \<Rightarrow> if m = [] then md else md\<lparr>md_progress_message := Some m\<rparr>);
                task' = task\<lparr>metadata := md'\<rparr>
            in (True,
                publish (TaskProgress task_id (agent_id task') progress message
                           (md_trace_id (metadata task')))
                  (put_task task' session)))"

definition complete_task :: "Session \<Rightarrow> datetime \<Rightarrow> uuid \<Rightarrow> string \<Rightarrow> bool \<times> Session" where
  "complete_task session now task_id result =
     (case get_task session task_id of
        None \<Rightarrow> (False, session)
      | Some task \<Rightarrow>
          if status task \<noteq> IN_PROGRESS then (False, session)
          else
            let task' = task\<lparr>status := COMPLETED, completed_at := Some now,
                              output_data := ResultOutput result\<rparr>
            in (True,
                publish (TaskCompleted task_id (agent_id task') result
                           (md_trace_id (metadata task')))
                  (free_agent now task' (put_task task' session))))"

definition fail_task ::
  "TaskScheduler \<Rightarrow> Session \<Rightarrow> datetime \<Rightarrow> uuid \<Rightarrow> string \<Rightarrow> bool \<Rightarrow> bool \<times> Session" where
  "fail_task self session now task_id error retry =
     (case get_task session task_id of
        None \<Rightarrow> (False, session)
      | Some task \<Rightarrow>
          let retry_count = (case md_retry_count (metadata task) of None \<Rightarrow> 0 | Some n \<Rightarrow> n);
              task' =
                (if retry \<and> retry_count < max_retries self
                 then task\<lparr>status := RETRYING,
                           metadata := (metadata task)\<lparr>md_retry_count := Some (retry_count + 1),
                                                         md_last_error := Some error\<rparr>,
                           agent_id := None\<rparr>
                 else task\<lparr>status := FAILED, completed_at := Some now,
                           output_data := ErrorOutput error\<rparr>)
          in (True,
              publish (TaskFailed task_id (agent_id task') error retry_count
                         (md_trace_id (metadata task')))
                (free_agent now task' (put_task task' session))))"

definition cancel_task :: "Session \<Rightarrow> datetime \<Rightarrow> uuid \<Rightarrow> bool \<times> Session" where
  "cancel_task session now task_id =
     (case get_task session task_id of
        None \<Rightarrow> (False, session)
      | Some task \<Rightarrow>
          if status task \<notin> {PENDING, QUEUED} then (False, session)
          else
            let task' = task\<lparr>status := CANCELLED, completed_at := Some now\<rparr>
            in (True, free_agent now task' (put_task task' session)))"



text \<open>
  \<^verbatim>\<open>ORDER BY priority DESC, created_at ASC\<close>: \<open>order_before a b\<close> says that row
  \<open>a\<close> may stand before row \<open>b\<close>. The database leaves the order of rows with equal
  keys open; the model keeps them in table order.
\<close>

definition order_before :: "Task \<Rightarrow> Task \<Rightarrow> bool" where
  "order_before a b \<longleftrightarrow>
     priority a > priority b \<or> (priority a = priority b \<and> created_at a \<le> created_at b)"

fun insert_ordered :: "Task \<Rightarrow> Task list \<Rightarrow> Task list" where
  "insert_ordered t [] = [t]"
| "insert_ordered t (x # xs) =
     (if order_before t x then t # x # xs else x # insert_ordered t xs)"

definition order_by :: "Task list \<Rightarrow> Task list" where
  "order_by rows = foldr insert_ordered rows []"

text \<open>The query of \<^verbatim>\<open>get_ready_tasks\<close>, with its \<^verbatim>\<open>LIMIT\<close>.\<close>

definition candidates :: "Session \<Rightarrow> nat \<Rightarrow> Task list" where
  "candidates session limit =
     take limit (order_by (filter (\<lambda>t. status t \<in> {PENDING, RETRYING}) (tasks session)))"

definition dependencies :: "Session \<Rightarrow> Task \<Rightarrow> uuid list" where
  "dependencies session task =
     map snd (filter (\<lambda>dep. fst dep = t_id task) (task_dependencies session))"

text \<open>
  The inner loop: a dependency whose task exists and is not completed ends the loop
  with \<^verbatim>\<open>all_deps_completed = False\<close>; a dependency whose task is not found is
  skipped.
\<close>

fun all_deps_completed :: "Session \<Rightarrow> uuid list \<Rightarrow> bool" where
  "all_deps_completed session [] = True"
| "all_deps_completed session (dep # deps) =
     (case get_task session dep of
        None \<Rightarrow> all_deps_completed session deps
      | Some dep_task \<Rightarrow>
          if status dep_task \<noteq> COMPLETED then False else all_deps_completed session deps)"

definition get_ready_tasks :: "Session \<Rightarrow> nat \<Rightarrow> Task list" where
  "get_ready_tasks session limit =
     filter (\<lambda>task. all_deps_completed session (dependencies session task))
       (candidates session limit)"

section \<open>AdvancedScheduler: the priority score\<close>

text \<open>
  \<^verbatim>\<open>_calculate_priority_score\<close> of \<^verbatim>\<open>scheduler_service.py\<close>, with the floats
  read as rationals and \<^verbatim>\<open>total_seconds()\<close> as the difference of the time stamps;
  \<^verbatim>\<open>_process_aging\<close> calls it with
  \<^verbatim>\<open>aging_boost = age_minutes * aging_factor\<close>.
\<close>

record SchedulerConfig =
  aging_factor :: rat
  deadline_weight :: rat

definition calculate_priority_score ::
  "SchedulerConfig \<Rightarrow> datetime \<Rightarrow> int \<Rightarrow> datetime option \<Rightarrow> rat \<Rightarrow> rat" where
  "calculate_priority_score config now prio dl aging_boost =
     (let score = - of_int prio;
          score' =
            (case dl of
               None \<Rightarrow> score
             | Some d \<Rightarrow>
                 let time_until_deadline = of_int (d - now) in
                 if time_until_deadline \<le> 0 then score - 1000
                 else
                   let urgency = 1 / (time_until_deadline / 3600 + 1)
                   in score - urgency * deadline_weight config * 100)
      in score' - aging_boost)"

definition aged_score :: "SchedulerConfig \<Rightarrow> datetime \<Rightarrow> Task \<Rightarrow> rat" where
  "aged_score config now task =
     (let age_minutes = of_int (now - created_at task) / 60;
          aging_boost = age_minutes * aging_factor config
      in calculate_priority_score config now (priority task) (deadline task) aging_boost)"

section \<open>AgentManager\<close>

definition update_agent_status ::
  "Session \<Rightarrow> datetime \<Rightarrow> uuid \<Rightarrow> AgentStatus \<Rightarrow> Agent option \<times> Session" where
  "update_agent_status session now agent new_status =
     (case get_agent session agent of
        None \<Rightarrow> (None, session)
      | Some ag \<Rightarrow>
          let ag' = ag\<lparr>a_status := new_status, a_updated_at := now\<rparr>;
              ag'' = (if new_status \<in> {IDLE, BUSY} then ag'\<lparr>last_heartbeat := Some now\<rparr> else ag')
          in (Some ag'', put_agent ag'' session))"

text \<open>
  \<^verbatim>\<open>ORDER BY last_heartbeat DESC\<close>: \<open>heartbeat_before a b\<close> says that row \<open>a\<close>
  may stand before row \<open>b\<close>. The column is nullable, and PostgreSQL puts NULL first in
  a descending order.
\<close>

definition heartbeat_before :: "Agent \<Rightarrow> Agent \<Rightarrow> bool" where
  "heartbeat_before a b \<longleftrightarrow>
     (case last_heartbeat a of
        None \<Rightarrow> True
      | Some ha \<Rightarrow> (case last_heartbeat b of None \<Rightarrow> False | Some hb \<Rightarrow> hb \<le> ha))"

text \<open>\<^verbatim>\<open>ORDER BY last_heartbeat DESC LIMIT 1\<close> with \<^verbatim>\<open>scalar_one_or_none()\<close>.\<close>

fun first_by_heartbeat :: "Agent list \<Rightarrow> Agent option" where
  "first_by_heartbeat [] = None"
| "first_by_heartbeat (a # rows) =
     (case first_by_heartbeat rows of
        None \<Rightarrow> Some a
      | Some b \<Rightarrow> if heartbeat_before a b then Some a else Some b)"

text \<open>
  The \<^verbatim>\<open>WHERE\<close> part of the query of \<^verbatim>\<open>get_available_agent\<close>: the idle
  agents, of the given type when there is one.
\<close>

definition idle_agents :: "Session \<Rightarrow> AgentType option \<Rightarrow> Agent list" where
  "idle_agents session agent_type =
     (let idle = filter (\<lambda>a. a_status a = IDLE) (agents session)
      in case agent_type of
           None \<Rightarrow> idle
         | Some type_value \<Rightarrow> filter (\<lambda>a. a_type a = type_value) idle)"

text \<open>
  \<^verbatim>\<open>if agent and required_capabilities:\<close> is false for \<^verbatim>\<open>None\<close> and for the
  empty list. The capabilities are tested on the one row that the query returned.
\<close>

definition get_available_agent ::
  "Session \<Rightarrow> AgentType option \<Rightarrow> string list option \<Rightarrow> Agent option" where
  "get_available_agent session agent_type required_capabilities =
     (case first_by_heartbeat (idle_agents session agent_type) of
        None \<Rightarrow> None
      | Some agent \<Rightarrow>
          (case required_capabilities of
             None \<Rightarrow> Some agent
           | Some caps \<Rightarrow>
               if caps \<noteq> [] \<and> \<not> list_all (\<lambda>cap. cap \<in> set (skills agent)) caps
               then None
               else Some agent))"

section \<open>EventConsumer\<close>

text \<open>
  A record's value is what \<^verbatim>\<open>json.loads\<close> returned: a dictionary or another JSON
  value, which has no \<^verbatim>\<open>get\<close>. Of a dictionary the model keeps the value under
  \<^verbatim>\<open>event_type\<close> and the other fields as an opaque string. The value under
  \<^verbatim>\<open>event_type\<close> is absent or null (\<^verbatim>\<open>get\<close> returns None), a string, a
  number or boolean (hashable, and never equal to a string key), or a list or dictionary
  (unhashable).
\<close>

datatype EventTypeValue = Absent | Text string | Scalar | Container

record EventDict =
  event_type :: EventTypeValue
  content :: string

datatype MessageValue = Object EventDict | NonObject

record Message =
  topic :: string
  partition :: int
  offset :: int
  msg_value :: MessageValue

text \<open>
  What a call that the consumer makes (and awaits) does: it returns, it raises an
  \<^verbatim>\<open>Exception\<close> (the model keeps \<^verbatim>\<open>str(e)\<close>), it raises
  \<^verbatim>\<open>asyncio.CancelledError\<close>, or it raises another \<^verbatim>\<open>BaseException\<close> that
  is not an \<^verbatim>\<open>Exception\<close>. Of a handler, \<open>named\<close> says whether the callable has the attribute
  \<^verbatim>\<open>__name__\<close>, which the handler loop reads when it logs an error: a function has
  it, a \<^verbatim>\<open>functools.partial\<close> object or an instance with \<^verbatim>\<open>__call__\<close> has
  not.
\<close>

datatype Outcome = Returned | Raised string | Cancelled | BaseRaised string

record Handler =
  call :: "EventDict \<Rightarrow> Outcome"
  named :: bool

text \<open>
  The consumer: \<^verbatim>\<open>enable_auto_commit\<close>, the dictionary \<^verbatim>\<open>_handlers\<close>, what
  awaiting \<^verbatim>\<open>self._consumer.commit\<close> does for an offset, and what the consumer has done so far: the offsets committed,
  as \<open>(topic, partition, offset)\<close>, and the errors logged with \<^verbatim>\<open>logger.error\<close>.
\<close>

record EventConsumer =
  enable_auto_commit :: bool
  handlers :: "(string \<times> Handler list) list"
  commit_outcome :: "string \<times> int \<times> int \<Rightarrow> Outcome"
  commits :: "(string \<times> int \<times> int) list"
  error_log :: "string list"

definition register_handler :: "EventConsumer \<Rightarrow> string \<Rightarrow> Handler \<Rightarrow> EventConsumer" where
  "register_handler self ty handler =
     (case map_of (handlers self) ty of
        None \<Rightarrow> self\<lparr>handlers := handlers self @ [(ty, [handler])]\<rparr>
      | Some hs \<Rightarrow>
          self\<lparr>handlers := map (\<lambda>(k, v). if k = ty then (k, v @ [handler]) else (k, v))
                               (handlers self)\<rparr>)"

text \<open>
  How an exception leaves \<^verbatim>\<open>_process_message\<close>: as an \<^verbatim>\<open>Exception\<close>, as
  \<^verbatim>\<open>asyncio.CancelledError\<close>, or as another \<^verbatim>\<open>BaseException\<close>.
\<close>

datatype Escape = ExceptionEscapes string | CancelledEscapes | BaseEscapes string

text \<open>
  The loop over the handlers of \<^verbatim>\<open>_process_message\<close>. The result is the list of
  the errors logged by the loop and the exception that ended it, if any. An
  \<^verbatim>\<open>Exception\<close> of a handler is caught inside the loop and logged together with
  \<^verbatim>\<open>handler.__name__\<close>, and the loop goes on; when the handler has no such
  attribute, the \<^verbatim>\<open>AttributeError\<close> of the logging call leaves the loop before
  anything is logged. \<^verbatim>\<open>except Exception\<close> does not catch the other two kinds,
  which leave the loop too.
\<close>

fun run_handlers :: "Handler list \<Rightarrow> EventDict \<Rightarrow> string list \<times> Escape option" where
  "run_handlers [] event = ([], None)"
| "run_handlers (handler # hs) event =
     (case call handler event of
        Returned \<Rightarrow> run_handlers hs event
      | Raised e \<Rightarrow>
          if named handler
          then (e # fst (run_handlers hs event), snd (run_handlers hs event))
          else ([], Some (ExceptionEscapes ''AttributeError''))
      | Cancelled \<Rightarrow> ([], Some CancelledEscapes)
      | BaseRaised e \<Rightarrow> ([], Some (BaseEscapes e)))"

text \<open>
  \<^verbatim>\<open>self._handlers.get(event_type, [])\<close> for a hashable \<^verbatim>\<open>event_type\<close>: the
  keys of the dictionary are the strings given to \<^verbatim>\<open>register_handler\<close>.
\<close>

definition handlers_for :: "EventConsumer \<Rightarrow> EventTypeValue \<Rightarrow> Handler list" where
  "handlers_for self ty =
     (case ty of
        Text k \<Rightarrow> (case map_of (handlers self) k of None \<Rightarrow> [] | Some hs \<Rightarrow> hs)
      | _ \<Rightarrow> [])"

text \<open>
  \<^verbatim>\<open>_process_message\<close>: \<^verbatim>\<open>event.get\<close> raises \<^verbatim>\<open>AttributeError\<close> for a
  value that is not a dictionary, the lookup in \<^verbatim>\<open>_handlers\<close> raises
  \<^verbatim>\<open>TypeError\<close> for an unhashable \<^verbatim>\<open>event_type\<close>, and then the handlers run.
\<close>

definition process_message :: "EventConsumer \<Rightarrow> Message \<Rightarrow> string list \<times> Escape option" where
  "process_message self message =
     (case msg_value message of
        NonObject \<Rightarrow> ([], Some (ExceptionEscapes ''AttributeError''))
      | Object event \<Rightarrow>
          (case event_type event of
             Container \<Rightarrow> ([], Some (ExceptionEscapes ''TypeError''))
           | _ \<Rightarrow> run_handlers (handlers_for self (event_type event)) event))"

text \<open>
  How the loop of \<^verbatim>\<open>consume\<close> ends: the records are exhausted, the
  \<^verbatim>\<open>asyncio.CancelledError\<close> is caught by the outer \<^verbatim>\<open>try\<close> and the method
  returns, or another \<^verbatim>\<open>BaseException\<close> leaves the method.
\<close>

datatype LoopExit = Exhausted | LoopCancelled | LoopRaised string

text \<open>
  The body of the loop for one record, once the test of \<^verbatim>\<open>_running\<close> has passed
  (the flag is cleared by \<^verbatim>\<open>stop()\<close>, which another task calls). After
  \<^verbatim>\<open>_process_message\<close> has returned, the offset plus one is committed unless auto
  commit is enabled. An \<^verbatim>\<open>Exception\<close> of \<^verbatim>\<open>_process_message\<close> or of the
  commit is logged and the loop goes on with the next record (\<open>None\<close>); the other
  exceptions, of either call, end the loop.
\<close>

definition consume_message :: "EventConsumer \<Rightarrow> Message \<Rightarrow> EventConsumer \<times> LoopExit option" where
  "consume_message self message =
     (let (logged, escape) = process_message self message;
          self' = self\<lparr>error_log := error_log self @ logged\<rparr>;
          position = (topic message, partition message, offset message + 1)
      in case escape of
           Some (ExceptionEscapes e) \<Rightarrow> (self'\<lparr>error_log := error_log self' @ [e]\<rparr>, None)
         | Some CancelledEscapes \<Rightarrow> (self', Some LoopCancelled)
         | Some (BaseEscapes e) \<Rightarrow> (self', Some (LoopRaised e))
         | None \<Rightarrow>
             if enable_auto_commit self' then (self', None)
             else
               (case commit_outcome self' position of
                  Returned \<Rightarrow> (self'\<lparr>commits := commits self' @ [position]\<rparr>, None)
                | Raised e \<Rightarrow> (self'\<lparr>error_log := error_log self' @ [e]\<rparr>, None)
                | Cancelled \<Rightarrow> (self', Some LoopCancelled)
                | BaseRaised e \<Rightarrow> (self', Some (LoopRaised e))))"

fun consume :: "EventConsumer \<Rightarrow> Message list \<Rightarrow> EventConsumer \<times> LoopExit" where
  "consume self [] = (self, Exhausted)"
| "consume self (message # messages) =
     (case consume_message self message of
        (self', None) \<Rightarrow> consume self' messages
      | (self', Some exit) \<Rightarrow> (self', exit))"

text \<open>
  The handler loop gets past a handler that returns and past a handler with a name that
  raises an \<^verbatim>\<open>Exception\<close>; \<open>logged_errors\<close> are the exceptions of the handlers of a
  list, in order.
\<close>

definition passes :: "Handler \<Rightarrow> EventDict \<Rightarrow> bool" where
  "passes handler event \<longleftrightarrow>
     (case call handler event of
        Returned \<Rightarrow> True
      | Raised e \<Rightarrow> named handler
      | Cancelled \<Rightarrow> False
      | BaseRaised e \<Rightarrow> False)"

definition logged_errors :: "Handler list \<Rightarrow> EventDict \<Rightarrow> string list" where
  "logged_errors hs event =
     concat (map (\<lambda>handler. case call handler event of Raised e \<Rightarrow> [e] | _ \<Rightarrow> []) hs)"

section \<open>Properties of the dependency table\<close>


section \<open>Example rows\<close>

text \<open>
  A task as \<^verbatim>\<open>submit_task\<close> creates it (a trace id in the metadata, no output),
  an agent as \<^verbatim>\<open>spawn_agent\<close> creates it (the last heartbeat set), and the
  scheduler with the default arguments of its constructor.
\<close>

definition new_metadata :: Metadata where
  "new_metadata = \<lparr>md_trace_id = Some ''trace'', md_agent_type = None, md_retry_count = None,
                    md_last_error = None, md_progress = None, md_progress_message = None\<rparr>"

definition new_task :: "uuid \<Rightarrow> TaskStatus \<Rightarrow> int \<Rightarrow> datetime \<Rightarrow> Task" where
  "new_task i st prio created =
     \<lparr>t_id = i, agent_id = None, description = ''work'', status = st, priority = prio,
      input_data = ''{}'', output_data = NoOutput, metadata = new_metadata, deadline = None,
      created_at = created, started_at = None, completed_at = None\<rparr>"

definition new_agent :: "uuid \<Rightarrow> AgentStatus \<Rightarrow> string list \<Rightarrow> datetime \<Rightarrow> Agent" where
  "new_agent i st caps hb =
     \<lparr>a_id = i, a_type = RESEARCH, a_status = st, skills = caps, a_updated_at = hb,
      last_heartbeat = Some hb\<rparr>"

definition scheduler :: TaskScheduler where
  "scheduler = \<lparr>default_timeout = 300, max_retries = 3, retry_delay = 5, queue_max_size = 10000\<rparr>"


text \<open>A task in progress whose owning agent has gone offline.\<close>

definition offline_owner_session :: Session where
  "offline_owner_session =
     \<lparr>tasks = [(new_task 1 IN_PROGRESS 0 10)\<lparr>agent_id := Some 7, started_at := Some 20\<rparr>],
      agents = [new_agent 7 OFFLINE [] 15], task_dependencies = [], published = []\<rparr>"

text \<open>A completed task that still carries the agent that ran it, as \<^verbatim>\<open>complete_task\<close> leaves it.\<close>

definition completed_task :: Task where
  "completed_task =
     (new_task 1 COMPLETED 0 10)\<lparr>agent_id := Some 7, started_at := Some 20,
        completed_at := Some 30, output_data := ResultOutput ''answer''\<rparr>"

definition completed_session :: Session where
  "completed_session =
     \<lparr>tasks = [completed_task], agents = [new_agent 7 IDLE [] 15],
      task_dependencies = [], published = []\<rparr>"

text \<open>A task in progress on the busy agent 7.\<close>

definition running_task :: Task where
  "running_task = (new_task 1 IN_PROGRESS 0 10)\<lparr>agent_id := Some 7, started_at := Some 20\<rparr>"

definition running_session :: Session where
  "running_session =
     \<lparr>tasks = [running_task], agents = [new_agent 7 BUSY [] 15],
      task_dependencies = [], published = []\<rparr>"

text \<open>A task waiting for its retry, as \<^verbatim>\<open>fail_task\<close> leaves it, and an idle agent.\<close>

definition retrying_task :: Task where
  "retrying_task =
     (new_task 1 RETRYING 0 10)\<lparr>started_at := Some 20,
        metadata := new_metadata\<lparr>md_retry_count := Some 1, md_last_error := Some ''boom''\<rparr>\<rparr>"

definition retrying_session :: Session where
  "retrying_session =
     \<lparr>tasks = [retrying_task], agents = [new_agent 7 IDLE [] 15],
      task_dependencies = [], published = []\<rparr>"

text \<open>The terminal statuses of a task.\<close>

definition terminal :: "TaskStatus \<Rightarrow> bool" where
  "terminal st \<longleftrightarrow> st = COMPLETED \<or> st = FAILED \<or> st = CANCELLED"

text \<open>
  The state machine of the specification for \<^verbatim>\<open>UpdateStatus\<close>, in the
  specification's words: starting to idle; idle to busy and back; any status to stopping,
  stopping to offline; any status to failed. The source has no such table.
\<close>

definition spec_allowed_transition :: "AgentStatus \<Rightarrow> AgentStatus \<Rightarrow> bool" where
  "spec_allowed_transition old new \<longleftrightarrow>
     (old = STARTING \<and> new = IDLE) \<or> (old = IDLE \<and> new = BUSY) \<or> (old = BUSY \<and> new = IDLE) \<or>
     new = STOPPING \<or> (old = STOPPING \<and> new = OFFLINE) \<or> new = AGENT_FAILED"

text \<open>
  Two pending tasks created at the same time: task 2 with priority 0 and a deadline that is
  past at time 100, task 1 with priority 5 and no deadline.
\<close>

definition overdue_session :: Session where
  "overdue_session =
     \<lparr>tasks = [(new_task 2 PENDING 0 100)\<lparr>deadline := Some 50\<rparr>, new_task 1 PENDING 5 100],
      agents = [], task_dependencies = [], published = []\<rparr>"

text \<open>The default \<^verbatim>\<open>SchedulerConfig\<close>.\<close>

definition scheduler_config :: SchedulerConfig where
  "scheduler_config = \<lparr>aging_factor = 1 / 10, deadline_weight = 2\<rparr>"

text \<open>
  Task 1 is completed; task 2 depends on it, task 3 depends on task 2, and task 4 waits for
  a retry.
\<close>

definition blocked_session :: Session where
  "blocked_session =
     \<lparr>tasks = [new_task 1 COMPLETED 0 10, new_task 2 PENDING 1 11, new_task 3 PENDING 9 12,
               new_task 4 RETRYING 3 13],
      agents = [], task_dependencies = [(2, 1), (3, 2)], published = []\<rparr>"

text \<open>
  A handler function that raises an exception, one that returns and one that is cancelled;
  a consumer with the first two registered for \<^verbatim>\<open>task.assigned\<close> and the last for
  \<^verbatim>\<open>task.cancelled\<close>, whose commits succeed; and a record of each type.
\<close>

definition failing_handler :: Handler where
  "failing_handler = \<lparr>call = (\<lambda>event. Raised ''boom''), named = True\<rparr>"

definition passing_handler :: Handler where
  "passing_handler = \<lparr>call = (\<lambda>event. Returned), named = True\<rparr>"

definition cancelled_handler :: Handler where
  "cancelled_handler = \<lparr>call = (\<lambda>event. Cancelled), named = True\<rparr>"

definition task_consumer :: EventConsumer where
  "task_consumer =
     \<lparr>enable_auto_commit = False,
      handlers = [(''task.assigned'', [failing_handler, passing_handler]),
                  (''task.cancelled'', [cancelled_handler])],
      commit_outcome = (\<lambda>position. Returned),
      commits = [], error_log = []\<rparr>"

definition assigned_event :: EventDict where
  "assigned_event = \<lparr>event_type = Text ''task.assigned'', content = ''{}''\<rparr>"

definition assigned_message :: Message where
  "assigned_message =
     \<lparr>topic = ''agent.tasks'', partition = 0, offset = 41, msg_value = Object assigned_event\<rparr>"

definition cancelled_message :: Message where
  "cancelled_message =
     \<lparr>topic = ''agent.tasks'', partition = 0, offset = 42,
      msg_value = Object \<lparr>event_type = Text ''task.cancelled'', content = ''{}''\<rparr>\<rparr>"

text \<open>
  Two idle research agents: agent 7 with the later heartbeat and no skill, agent 8 with the
  skill \<^verbatim>\<open>web_search\<close>; and the session after agent 7 has been assigned task 1,
  has started and has completed it.
\<close>

definition skills_session :: Session where
  "skills_session =
     \<lparr>tasks = [new_task 1 PENDING 0 10],
      agents = [new_agent 7 IDLE [] 90, new_agent 8 IDLE [''web_search''] 80],
      task_dependencies = [], published = []\<rparr>"

definition after_first_task :: Session where
  "after_first_task =
     snd (complete_task (snd (start_task (snd (assign_task skills_session 100 1 7)) 101 1))
            102 1 ''done'')"

text \<open>Two idle research agents that both have the skill; agent 7 has the later heartbeat.\<close>

definition skilled_session :: Session where
  "skilled_session =
     \<lparr>tasks = [],
      agents = [new_agent 8 IDLE [''web_search''] 80,
                new_agent 7 IDLE [''summarize'', ''web_search''] 90],
      task_dependencies = [], published = []\<rparr>"

section \<open>WebhookService: the payload signature\<close>

text \<open>
  \<^verbatim>\<open>_sign_payload\<close> calls
  \<^verbatim>\<open>hmac.new(secret.encode(), payload.encode(), hashlib.sha256).hexdigest()\<close>.
  The two library functions are written out: SHA-256 as in FIPS 180-4 and HMAC as in
  RFC 2104 with the block size 64 of SHA-256. A Python string is given by the bytes of its
  UTF-8 encoding, one \<open>char\<close> per byte.
\<close>

type_synonym byte = "8 word"
type_synonym word32 = "32 word"

text \<open>
  The 64 round constants (the first 32 bits of the fractional parts of the cube roots of
  the first 64 primes), as decimal numbers, and the initial hash value.
\<close>

definition K :: "word32 list" where
  "K =
     [1116352408, 1899447441, 3049323471, 3921009573, 961987163, 1508970993,
      2453635748, 2870763221, 3624381080, 310598401, 607225278, 1426881987,
      1925078388, 2162078206, 2614888103, 3248222580, 3835390401, 4022224774,
      264347078, 604807628, 770255983, 1249150122, 1555081692, 1996064986,
      2554220882, 2821834349, 2952996808, 3210313671, 3336571891, 3584528711,
      113926993, 338241895, 666307205, 773529912, 1294757372, 1396182291,
      1695183700, 1986661051, 2177026350, 2456956037, 2730485921, 2820302411,
      3259730800, 3345764771, 3516065817, 3600352804, 4094571909, 275423344,
      430227734, 506948616, 659060556, 883997877, 958139571, 1322822218,
      1537002063, 1747873779, 1955562222, 2024104815, 2227730452, 2361852424,
      2428436474, 2756734187, 3204031479, 3329325298]"

type_synonym hash_state =
  "word32 \<times> word32 \<times> word32 \<times> word32 \<times> word32 \<times> word32 \<times> word32 \<times> word32"

definition H0 :: hash_state where
  "H0 = (0x6a09e667, 0xbb67ae85, 0x3c6ef372, 0xa54ff53a,
         0x510e527f, 0x9b05688c, 0x1f83d9ab, 0x5be0cd19)"

text \<open>The six logical functions of SHA-256 on 32-bit words.\<close>

definition Ch :: "word32 \<Rightarrow> word32 \<Rightarrow> word32 \<Rightarrow> word32" where
  "Ch x y z = (x AND y) XOR (NOT x AND z)"

definition Maj :: "word32 \<Rightarrow> word32 \<Rightarrow> word32 \<Rightarrow> word32" where
  "Maj x y z = (x AND y) XOR (x AND z) XOR (y AND z)"

definition Sigma0 :: "word32 \<Rightarrow> word32" where
  "Sigma0 x = word_rotr 2 x XOR word_rotr 13 x XOR word_rotr 22 x"

definition Sigma1 :: "word32 \<Rightarrow> word32" where
  "Sigma1 x = word_rotr 6 x XOR word_rotr 11 x XOR word_rotr 25 x"

definition sigma0 :: "word32 \<Rightarrow> word32" where
  "sigma0 x = word_rotr 7 x XOR word_rotr 18 x XOR drop_bit 3 x"

definition sigma1 :: "word32 \<Rightarrow> word32" where
  "sigma1 x = word_rotr 17 x XOR word_rotr 19 x XOR drop_bit 10 x"

text \<open>Big-endian conversions between bytes and words.\<close>

definition be32 :: "byte list \<Rightarrow> word32" where
  "be32 bs = foldl (\<lambda>acc b. push_bit 8 acc OR ucast b) 0 bs"

definition to_be32 :: "word32 \<Rightarrow> byte list" where
  "to_be32 w = [ucast (drop_bit 24 w), ucast (drop_bit 16 w), ucast (drop_bit 8 w), ucast w]"

definition to_be64 :: "64 word \<Rightarrow> byte list" where
  "to_be64 w = map (\<lambda>i. ucast (drop_bit (8 * i) w)) [7, 6, 5, 4, 3, 2, 1, 0]"

text \<open>
  Padding: the byte 0x80, zero bytes up to 56 modulo 64, and the length of the message in
  bits as a 64-bit number.
\<close>

definition pad :: "byte list \<Rightarrow> byte list" where
  "pad msg =
     msg @ [0x80] @ replicate ((119 - length msg mod 64) mod 64) 0 @
     to_be64 (of_nat (8 * length msg))"

text \<open>The first \<open>n\<close> pieces of \<open>len\<close> elements of a list.\<close>

fun chunks :: "nat \<Rightarrow> nat \<Rightarrow> 'a list \<Rightarrow> 'a list list" where
  "chunks len 0 xs = []"
| "chunks len (Suc n) xs = take len xs # chunks len n (drop len xs)"

text \<open>The message schedule: 16 words of the block, extended to 64 words.\<close>

fun extend :: "nat \<Rightarrow> word32 list \<Rightarrow> word32 list" where
  "extend 0 w = w"
| "extend (Suc n) w =
     (let t = length w
      in extend n (w @ [sigma1 (w ! (t - 2)) + w ! (t - 7) + sigma0 (w ! (t - 15)) + w ! (t - 16)]))"

definition schedule :: "byte list \<Rightarrow> word32 list" where
  "schedule block = extend 48 (map be32 (chunks 4 16 block))"

text \<open>One round on the eight working variables, and the compression of one block.\<close>

fun sha_round :: "hash_state \<Rightarrow> word32 \<times> word32 \<Rightarrow> hash_state" where
  "sha_round (a, b, c, d, e, f, g, h) (k, w) =
     (let T1 = h + Sigma1 e + Ch e f g + k + w;
          T2 = Sigma0 a + Maj a b c
      in (T1 + T2, a, b, c, d + T1, e, f, g))"

fun add_state :: "hash_state \<Rightarrow> hash_state \<Rightarrow> hash_state" where
  "add_state (a, b, c, d, e, f, g, h) (a', b', c', d', e', f', g', h') =
     (a + a', b + b', c + c', d + d', e + e', f + f', g + g', h + h')"

definition compress :: "hash_state \<Rightarrow> byte list \<Rightarrow> hash_state" where
  "compress H block = add_state H (foldl sha_round H (zip K (schedule block)))"

fun digest :: "hash_state \<Rightarrow> byte list" where
  "digest (a, b, c, d, e, f, g, h) = concat (map to_be32 [a, b, c, d, e, f, g, h])"

definition sha256 :: "byte list \<Rightarrow> byte list" where
  "sha256 msg =
     (let padded = pad msg
      in digest (foldl compress H0 (chunks 64 (length padded div 64) padded)))"

text \<open>
  \<^verbatim>\<open>hmac.new(key, msg, hashlib.sha256).digest()\<close>: a key longer than a block is
  hashed first, the key is filled with zero bytes to a block, and the message is hashed
  with the key XOR 0x36 in front, the result with the key XOR 0x5c in front.
\<close>

definition hmac_sha256 :: "byte list \<Rightarrow> byte list \<Rightarrow> byte list" where
  "hmac_sha256 key msg =
     (let key' = (if length key > 64 then sha256 key else key);
          block = key' @ replicate (64 - length key') 0
      in sha256 (map (\<lambda>b. b XOR 0x5c) block @ sha256 (map (\<lambda>b. b XOR 0x36) block @ msg)))"

text \<open>\<^verbatim>\<open>hexdigest()\<close>: two lowercase hexadecimal digits per byte.\<close>

definition hex_digit :: "byte \<Rightarrow> char" where
  "hex_digit n = ''0123456789abcdef'' ! unat n"

definition hexdigest :: "byte list \<Rightarrow> string" where
  "hexdigest bs = concat (map (\<lambda>b. [hex_digit (drop_bit 4 b), hex_digit (b AND 0x0f)]) bs)"

text \<open>\<^verbatim>\<open>str.encode()\<close> and the method itself.\<close>

definition encode :: "string \<Rightarrow> byte list" where
  "encode s = map of_char s"

definition sign_payload :: "string \<Rightarrow> string \<Rightarrow> string" where
  "sign_payload payload secret = hexdigest (hmac_sha256 (encode secret) (encode payload))"


text \<open>
  Modelled from the spec: the verification of a signature, which is done by the recipient of
  a webhook and is not in the repository. "Recipients verify by recomputing": the signature
  received is compared with the signature computed from the payload and the secret.
\<close>

definition verify :: "string \<Rightarrow> string \<Rightarrow> string \<Rightarrow> bool" where
  "verify signature payload secret \<longleftrightarrow> signature = sign_payload payload secret"


text \<open>
  A known value of HMAC-SHA256: the key \<^verbatim>\<open>key\<close> and the message
  \<^verbatim>\<open>The quick brown fox jumps over the lazy dog\<close>. \<open>fox_inner\<close> is the inner hash.
\<close>

definition fox_inner :: "byte list" where
  "fox_inner =
     [0x7a, 0xd0, 0x4e, 0x5a, 0xa1, 0x9e, 0xee, 0x72, 0x18, 0x2c, 0x9a, 0x75, 0xac, 0x71, 0xba, 0x13,
      0x83, 0x3c, 0x53, 0xfc, 0x4d, 0xc8, 0xc8, 0x15, 0xce, 0xb7, 0x94, 0x6d, 0x56, 0x2e, 0x36, 0x31]"

text \<open>
  A second known value, computed with Python's \<^verbatim>\<open>hmac\<close> module, for a secret of 70
  bytes, which is longer than a block: \<open>long_secret_hash\<close> is the hash of the secret and
  \<open>long_inner\<close> the inner hash.
\<close>

definition long_secret :: string where
  "long_secret = ''whsec_0123456789abcdef0123456789abcdef0123456789abcdef0123456789abcdef''"

definition signed_body :: string where
  "signed_body = ''{\"event\": \"task.completed\"}''"

definition long_secret_hash :: "byte list" where
  "long_secret_hash =
     [0xfe, 0x78, 0xdd, 0xb5, 0xd9, 0xf0, 0xb1, 0xcd, 0xd9, 0xf4, 0x93, 0x57, 0x63, 0x50, 0xb9, 0x68,
      0x44, 0x20, 0x02, 0xe9, 0x35, 0x30, 0xf0, 0xbe, 0xb5, 0xcd, 0x9e, 0x34, 0x25, 0x6e, 0x99, 0xc7]"

definition long_inner :: "byte list" where
  "long_inner =
     [0x48, 0xb2, 0x9c, 0x23, 0xf9, 0xd2, 0x4e, 0x50, 0x42, 0x09, 0x62, 0x88, 0xdc, 0x12, 0xdc, 0xa0,
      0xb2, 0x45, 0x72, 0x47, 0xc4, 0x11, 0x82, 0x84, 0xd1, 0x87, 0x15, 0xf8, 0xb9, 0x4e, 0xa3, 0xbb]"

section \<open>Lookup lemmas\<close>

lemma get_agent_id: "get_agent s k = Some ag \<Longrightarrow> a_id ag = k"
  by (auto simp: get_agent_def find_Some_iff)

lemma get_task_id: "get_task s k = Some t \<Longrightarrow> t_id t = k"
  by (auto simp: get_task_def find_Some_iff)

lemma find_replace_same:
  "find (\<lambda>x. key x = k) xs = Some old \<Longrightarrow> key new = k \<Longrightarrow>
   find (\<lambda>x. key x = k) (map (\<lambda>x. if key x = k then new else x) xs) = Some new"
  by (induction xs) (auto split: if_splits)

lemma find_replace_other:
  "key new = k' \<Longrightarrow> k \<noteq> k' \<Longrightarrow>
   find (\<lambda>x. key x = k) (map (\<lambda>x. if key x = k' then new else x) xs) =
   find (\<lambda>x. key x = k) xs"
  by (induction xs) (auto split: if_splits)

lemma get_agent_put_task: "get_agent (put_task t s) a = get_agent s a"
  by (simp add: get_agent_def put_task_def)

lemma get_agent_publish: "get_agent (publish e s) a = get_agent s a"
  by (simp add: get_agent_def publish_def)

lemma get_task_publish: "get_task (publish e s) k = get_task s k"
  by (simp add: get_task_def publish_def)

lemma get_task_put_agent: "get_task (put_agent ag s) k = get_task s k"
  by (simp add: get_task_def put_agent_def)

lemma get_agent_put_agent_same:
  "get_agent s (a_id ag) = Some old \<Longrightarrow> get_agent (put_agent ag s) (a_id ag) = Some ag"
  unfolding get_agent_def put_agent_def
  using find_replace_same[of a_id "a_id ag" "agents s" old ag] by simp

lemma get_agent_put_agent_other:
  "k \<noteq> a_id ag \<Longrightarrow> get_agent (put_agent ag s) k = get_agent s k"
  unfolding get_agent_def put_agent_def
  using find_replace_other[of a_id ag "a_id ag" k "agents s"] by simp

section \<open>Dependencies\<close>









section \<open>Completion\<close>

text \<open>
  C10: when \<^verbatim>\<open>complete_task\<close> is called for a task in progress whose
  \<^verbatim>\<open>agent_id\<close> names an existing agent, the call succeeds and that agent's status
  is idle afterwards, whatever it was before (offline, failed, stopping, starting, ...).
\<close>

theorem complete_task_frees_agent:
  assumes "get_task session task_id = Some task"
    and "status task = IN_PROGRESS"
    and "agent_id task = Some owner"
    and "get_agent session owner = Some ag"
  shows "fst (complete_task session now task_id result) \<and>
         get_agent (snd (complete_task session now task_id result)) owner =
           Some (ag\<lparr>a_status := IDLE, a_updated_at := now\<rparr>)"
proof -
  let ?task' = "task\<lparr>status := COMPLETED, completed_at := Some now,
                     output_data := ResultOutput result\<rparr>"
  let ?ag' = "ag\<lparr>a_status := IDLE, a_updated_at := now\<rparr>"
  have id: "a_id ?ag' = owner"
    using assms(4) by (simp add: get_agent_id)
  have free: "free_agent now ?task' (put_task ?task' session) =
                put_agent ?ag' (put_task ?task' session)"
    using assms(3,4) by (simp add: free_agent_def get_agent_put_task)
  have "get_agent (put_agent ?ag' (put_task ?task' session)) owner = Some ?ag'"
    using get_agent_put_agent_same[of "put_task ?task' session" ?ag' ag] assms(4) id
    by (simp add: get_agent_put_task)
  then show ?thesis
    using assms(1,2) free by (simp add: complete_task_def Let_def get_agent_publish)
qed

theorem complete_task_frees_agent_witness:
  "get_task offline_owner_session 1 =
     Some ((new_task 1 IN_PROGRESS 0 10)\<lparr>agent_id := Some 7, started_at := Some 20\<rparr>) \<and>
   get_agent offline_owner_session 7 = Some (new_agent 7 OFFLINE [] 15) \<and>
   fst (complete_task offline_owner_session 30 1 ''done'') \<and>
   get_agent (snd (complete_task offline_owner_session 30 1 ''done'')) 7 =
     Some ((new_agent 7 OFFLINE [] 15)\<lparr>a_status := IDLE, a_updated_at := 30\<rparr>)"
proof -
  let ?task = "(new_task 1 IN_PROGRESS 0 10)\<lparr>agent_id := Some 7, started_at := Some 20\<rparr>"
  have t: "get_task offline_owner_session 1 = Some ?task"
    by (simp add: offline_owner_session_def get_task_def new_task_def)
  have s: "status ?task = IN_PROGRESS" and o: "agent_id ?task = Some 7"
    by (simp_all add: new_task_def)
  have a: "get_agent offline_owner_session 7 = Some (new_agent 7 OFFLINE [] 15)"
    by (simp add: offline_owner_session_def get_agent_def new_agent_def)
  show ?thesis
    using t a complete_task_frees_agent [OF t s o a, of 30 "''done''"]
    by (simp add: new_agent_def)
qed

section \<open>Failure, retry and assignment\<close>

lemma other_operations_reject_terminal:
  assumes "get_task session task_id = Some task" and "terminal (status task)"
  shows "start_task session now task_id = (False, session)"
    and "update_task_progress session now task_id progress message = (False, session)"
    and "complete_task session now task_id result = (False, session)"
    and "cancel_task session now task_id = (False, session)"
    and "assign_task session now task_id agent = (False, session)"
  using assms
  by (auto simp: terminal_def start_task_def update_task_progress_def complete_task_def
        cancel_task_def assign_task_def)

lemma fail_task_retry_agents_unchanged:
  assumes "get_task session task_id = Some task"
    and "(case md_retry_count (metadata task) of None \<Rightarrow> 0 | Some n \<Rightarrow> n) < max_retries self"
  shows "agents (snd (fail_task self session now task_id error True)) = agents session"
  using assms
  by (simp add: fail_task_def Let_def free_agent_def publish_def put_task_def)

text \<open>
  C2: a task in a terminal status is not changed by a later scheduler operation. The
  sibling operations test the status first (lemma \<open>other_operations_reject_terminal\<close>);
  \<^verbatim>\<open>fail_task\<close> has no such test. Called on a completed task it moves the task to
  retrying, clears its agent and counts a retry; called with \<^verbatim>\<open>retry=False\<close> it
  moves the task to failed and replaces the stored result by the error.
\<close>

theorem fail_task_changes_terminal_task:
  "get_task completed_session 1 = Some completed_task \<and>
   status completed_task = COMPLETED \<and>
   get_task (snd (fail_task scheduler completed_session 50 1 ''late'' True)) 1 =
     Some (completed_task\<lparr>status := RETRYING, agent_id := None,
             metadata := new_metadata\<lparr>md_retry_count := Some 1, md_last_error := Some ''late''\<rparr>\<rparr>) \<and>
   get_task (snd (fail_task scheduler completed_session 50 1 ''late'' False)) 1 =
     Some (completed_task\<lparr>status := FAILED, completed_at := Some 50,
             output_data := ErrorOutput ''late''\<rparr>)"
  by (simp add: fail_task_def completed_session_def completed_task_def scheduler_def
        new_task_def new_metadata_def new_agent_def get_task_def get_agent_def put_task_def
        put_agent_def publish_def free_agent_def Let_def)

text \<open>
  C3: \<^verbatim>\<open>fail_task\<close> releases the owning agent to idle in both outcomes. In the
  retry branch the method sets \<^verbatim>\<open>task.agent_id = None\<close> before the block that
  frees the agent reads it, so the agent stays busy and the event carries no agent; in
  the failed branch the agent becomes idle. The event carries the retry count read
  before the increment.
\<close>

theorem fail_task_retry_keeps_agent_busy:
  "get_task running_session 1 = Some running_task \<and>
   agent_id running_task = Some 7 \<and>
   get_agent running_session 7 = Some (new_agent 7 BUSY [] 15) \<and>
   fail_task scheduler running_session 50 1 ''boom'' True =
     (True,
      running_session\<lparr>
        tasks := [running_task\<lparr>status := RETRYING, agent_id := None,
                    metadata := new_metadata\<lparr>md_retry_count := Some 1,
                                                md_last_error := Some ''boom''\<rparr>\<rparr>],
        published := [TaskFailed 1 None ''boom'' 0 (Some ''trace'')]\<rparr>) \<and>
   get_agent (snd (fail_task scheduler running_session 50 1 ''boom'' True)) 7 =
     Some (new_agent 7 BUSY [] 15) \<and>
   get_agent (snd (fail_task scheduler running_session 50 1 ''boom'' False)) 7 =
     Some ((new_agent 7 BUSY [] 15)\<lparr>a_status := IDLE, a_updated_at := 50\<rparr>)"
  by (simp add: fail_task_def running_session_def running_task_def scheduler_def
        new_task_def new_metadata_def new_agent_def get_task_def get_agent_def put_task_def
        put_agent_def publish_def free_agent_def Let_def)

text \<open>
  C7: \<^verbatim>\<open>assign_task\<close> accepts a task in retrying. The method tests the status
  against pending and queued only. For a retrying task and an idle agent,
  \<^verbatim>\<open>get_ready_tasks\<close> returns the task and \<^verbatim>\<open>get_available_agent\<close> the agent,
  as the scheduler loop reads them, and the assignment returns False and changes nothing.
\<close>

theorem assign_task_rejects_retrying:
  "map t_id (get_ready_tasks retrying_session 10) = [1] \<and>
   map_option a_id (get_available_agent retrying_session None None) = Some 7 \<and>
   get_task retrying_session 1 = Some retrying_task \<and>
   status retrying_task = RETRYING \<and>
   get_agent retrying_session 7 = Some (new_agent 7 IDLE [] 15) \<and>
   assign_task retrying_session 60 1 7 = (False, retrying_session)"
  by (simp add: assign_task_def retrying_session_def retrying_task_def
        new_task_def new_metadata_def new_agent_def get_task_def get_agent_def
        get_ready_tasks_def candidates_def order_by_def dependencies_def
        get_available_agent_def idle_agents_def Let_def)

section \<open>Agent status\<close>

text \<open>
  C6, as stated: \<^verbatim>\<open>update_agent_status\<close> rejects a transition that the state
  machine does not allow and leaves the agent unchanged. Offline to busy is not allowed
  by the state machine; the method applies it.
\<close>

theorem update_agent_status_counterexample:
  "get_agent offline_owner_session 7 = Some (new_agent 7 OFFLINE [] 15) \<and>
   \<not> spec_allowed_transition OFFLINE BUSY \<and>
   fst (update_agent_status offline_owner_session 50 7 BUSY) = Some (new_agent 7 BUSY [] 50) \<and>
   get_agent (snd (update_agent_status offline_owner_session 50 7 BUSY)) 7 =
     Some (new_agent 7 BUSY [] 50)"
  by (simp add: update_agent_status_def offline_owner_session_def new_agent_def
        get_agent_def put_agent_def spec_allowed_transition_def Let_def)

text \<open>
  C6, amended: for an existing agent \<^verbatim>\<open>update_agent_status\<close> sets the status to the
  requested one, whatever the old status is, sets \<^verbatim>\<open>updated_at\<close>, sets
  \<^verbatim>\<open>last_heartbeat\<close> when the new status is idle or busy, stores the agent and
  returns it; for an unknown agent it returns None and changes nothing.
\<close>

theorem update_agent_status_applies:
  "(get_agent session agent = None \<longrightarrow>
      update_agent_status session now agent new_status = (None, session)) \<and>
   (\<forall>ag. get_agent session agent = Some ag \<longrightarrow>
      fst (update_agent_status session now agent new_status) =
        Some (ag\<lparr>a_status := new_status, a_updated_at := now,
                 last_heartbeat := (if new_status \<in> {IDLE, BUSY} then Some now
                                    else last_heartbeat ag)\<rparr>) \<and>
      get_agent (snd (update_agent_status session now agent new_status)) agent =
        fst (update_agent_status session now agent new_status))"
proof (intro conjI allI impI)
  assume "get_agent session agent = None"
  then show "update_agent_status session now agent new_status = (None, session)"
    by (simp add: update_agent_status_def)
next
  fix ag
  assume g: "get_agent session agent = Some ag"
  let ?ag' = "ag\<lparr>a_status := new_status, a_updated_at := now,
                 last_heartbeat := (if new_status \<in> {IDLE, BUSY} then Some now
                                    else last_heartbeat ag)\<rparr>"
  have u: "update_agent_status session now agent new_status =
             (Some ?ag', put_agent ?ag' session)"
    using g by (simp add: update_agent_status_def Let_def)
  show "fst (update_agent_status session now agent new_status) = Some ?ag'"
    by (simp add: u)
  have "a_id ?ag' = agent"
    using g by (simp add: get_agent_id)
  then have "get_agent (put_agent ?ag' session) agent = Some ?ag'"
    using get_agent_put_agent_same [of session ?ag' ag] g by simp
  then show "get_agent (snd (update_agent_status session now agent new_status)) agent =
        fst (update_agent_status session now agent new_status)"
    by (simp add: u)
qed

theorem update_agent_status_applies_witness:
  "get_agent offline_owner_session 7 = Some (new_agent 7 OFFLINE [] 15) \<and>
   fst (update_agent_status offline_owner_session 50 7 STARTING) =
     Some ((new_agent 7 OFFLINE [] 15)\<lparr>a_status := STARTING, a_updated_at := 50\<rparr>) \<and>
   get_agent (snd (update_agent_status offline_owner_session 50 7 STARTING)) 7 =
     Some ((new_agent 7 OFFLINE [] 15)\<lparr>a_status := STARTING, a_updated_at := 50\<rparr>)"
proof -
  have a: "get_agent offline_owner_session 7 = Some (new_agent 7 OFFLINE [] 15)"
    by (simp add: offline_owner_session_def get_agent_def new_agent_def)
  show ?thesis
    using a update_agent_status_applies [of offline_owner_session 7 50 STARTING]
    by (simp add: new_agent_def)
qed

section \<open>Ready tasks\<close>

lemma order_before_total: "\<not> order_before a b \<Longrightarrow> order_before b a"
  by (auto simp: order_before_def)

lemma order_before_trans: "order_before a b \<Longrightarrow> order_before b c \<Longrightarrow> order_before a c"
  by (auto simp: order_before_def)

lemma set_insert_ordered: "set (insert_ordered t xs) = insert t (set xs)"
  by (induction xs) auto

lemma sorted_insert_ordered:
  "sorted_wrt order_before xs \<Longrightarrow> sorted_wrt order_before (insert_ordered t xs)"
  by (induction xs) (auto simp: set_insert_ordered dest: order_before_total order_before_trans)

lemma set_order_by: "set (order_by rows) = set rows"
  unfolding order_by_def by (induction rows) (auto simp: set_insert_ordered)

lemma sorted_order_by: "sorted_wrt order_before (order_by rows)"
  unfolding order_by_def by (induction rows) (auto simp: sorted_insert_ordered)

lemma sorted_wrt_take_any: "sorted_wrt P xs \<Longrightarrow> sorted_wrt P (take n xs)"
  by (induction xs arbitrary: n) (auto simp: take_Cons split: nat.splits dest: in_set_takeD)

lemma sorted_candidates: "sorted_wrt order_before (candidates session limit)"
  unfolding candidates_def by (intro sorted_wrt_take_any sorted_order_by)

lemma candidates_subset:
  "task \<in> set (candidates session limit) \<Longrightarrow>
   task \<in> set (tasks session) \<and> status task \<in> {PENDING, RETRYING}"
  unfolding candidates_def by (auto dest!: in_set_takeD simp: set_order_by)

lemma all_deps_completed_iff:
  "all_deps_completed session deps \<longleftrightarrow>
     (\<forall>dep \<in> set deps. \<forall>dep_task. get_task session dep = Some dep_task \<longrightarrow>
        status dep_task = COMPLETED)"
  by (induction deps) (auto split: option.splits)

lemma count_insert_ordered:
  "count_list (insert_ordered t xs) row = count_list (t # xs) row"
  by (induction xs) auto

lemma count_order_by: "count_list (order_by rows) row = count_list rows row"
  unfolding order_by_def by (induction rows) (simp_all add: count_insert_ordered)

lemma dependencies_iff:
  "dep \<in> set (dependencies session task) \<longleftrightarrow>
     (t_id task, dep) \<in> set (task_dependencies session)"
  by (force simp: dependencies_def)

lemma blocked_candidates:
  "order_by (filter (\<lambda>task. status task = PENDING \<or> status task = RETRYING)
               (tasks blocked_session)) =
     [new_task 3 PENDING 9 12, new_task 4 RETRYING 3 13, new_task 2 PENDING 1 11]"
  by (simp add: order_by_def order_before_def blocked_session_def new_task_def)

text \<open>
  C4, as stated: \<^verbatim>\<open>get_ready_tasks\<close> orders by the priority score, so that a task
  whose deadline has passed precedes every other task. The query orders by priority and
  creation time and reads neither the deadline nor the age. Task 2 (priority 0, deadline
  passed, score -1000) comes after task 1 (priority 5, no deadline, score -5).
\<close>

theorem get_ready_tasks_overdue_counterexample:
  "map t_id (get_ready_tasks overdue_session 10) = [1, 2] \<and>
   map priority (get_ready_tasks overdue_session 10) = [5, 0] \<and>
   map deadline (get_ready_tasks overdue_session 10) = [None, Some 50] \<and>
   aged_score scheduler_config 100 ((new_task 2 PENDING 0 100)\<lparr>deadline := Some 50\<rparr>) = - 1000 \<and>
   aged_score scheduler_config 100 (new_task 1 PENDING 5 100) = - 5 \<and>
   aged_score scheduler_config 100 ((new_task 2 PENDING 0 100)\<lparr>deadline := Some 50\<rparr>) <
     aged_score scheduler_config 100 (new_task 1 PENDING 5 100)"
  by (simp add: get_ready_tasks_def candidates_def order_by_def order_before_def
      overdue_session_def new_task_def dependencies_def aged_score_def
      calculate_priority_score_def scheduler_config_def Let_def)

text \<open>
  C4, amended: \<^verbatim>\<open>get_ready_tasks\<close> takes the first \<open>limit\<close> tasks of status pending
  or retrying in the order of the query and returns, in that order, those of them whose
  every dependency with an existing task is completed. The order of the query is a
  rearrangement of the rows that is sorted by priority descending and then by creation
  time ascending. So the result is sorted in that way and has at most \<open>limit\<close> tasks.
\<close>

theorem get_ready_tasks_order:
  "get_ready_tasks session limit =
     filter
       (\<lambda>task. \<forall>dep. (t_id task, dep) \<in> set (task_dependencies session) \<longrightarrow>
                 (\<forall>dep_task. get_task session dep = Some dep_task \<longrightarrow>
                    status dep_task = COMPLETED))
       (take limit
          (order_by
             (filter (\<lambda>task. status task = PENDING \<or> status task = RETRYING) (tasks session)))) \<and>
   (\<forall>row. count_list (order_by rows) row = count_list rows row) \<and>
   sorted_wrt order_before (order_by rows) \<and>
   sorted_wrt order_before (get_ready_tasks session limit) \<and>
   length (get_ready_tasks session limit) \<le> limit"
proof (intro conjI allI)
  have ready: "all_deps_completed session (dependencies session task) \<longleftrightarrow>
      (\<forall>dep. (t_id task, dep) \<in> set (task_dependencies session) \<longrightarrow>
         (\<forall>dep_task. get_task session dep = Some dep_task \<longrightarrow> status dep_task = COMPLETED))"
    for task
    by (simp add: all_deps_completed_iff dependencies_iff Ball_def)
  have sel: "(\<lambda>t. status t \<in> {PENDING, RETRYING}) =
             (\<lambda>task. status task = PENDING \<or> status task = RETRYING)"
    by auto
  show "get_ready_tasks session limit =
     filter
       (\<lambda>task. \<forall>dep. (t_id task, dep) \<in> set (task_dependencies session) \<longrightarrow>
                 (\<forall>dep_task. get_task session dep = Some dep_task \<longrightarrow>
                    status dep_task = COMPLETED))
       (take limit
          (order_by
             (filter (\<lambda>task. status task = PENDING \<or> status task = RETRYING) (tasks session))))"
    unfolding get_ready_tasks_def candidates_def sel by (simp add: ready)
  show "count_list (order_by rows) row = count_list rows row" for row
    by (rule count_order_by)
  show "sorted_wrt order_before (order_by rows)"
    by (rule sorted_order_by)
  show "sorted_wrt order_before (get_ready_tasks session limit)"
    unfolding get_ready_tasks_def by (rule sorted_wrt_filter) (rule sorted_candidates)
  have "length (get_ready_tasks session limit) \<le> length (candidates session limit)"
    unfolding get_ready_tasks_def by (rule length_filter_le)
  also have "\<dots> \<le> limit"
    unfolding candidates_def by simp
  finally show "length (get_ready_tasks session limit) \<le> limit" .
qed

theorem get_ready_tasks_order_witness:
  "get_ready_tasks blocked_session 1 = [] \<and>
   get_ready_tasks blocked_session 2 = [new_task 4 RETRYING 3 13] \<and>
   get_ready_tasks blocked_session 3 = [new_task 4 RETRYING 3 13, new_task 2 PENDING 1 11] \<and>
   order_by (tasks blocked_session) =
     [new_task 3 PENDING 9 12, new_task 4 RETRYING 3 13, new_task 2 PENDING 1 11,
      new_task 1 COMPLETED 0 10]"
proof -
  have t: "task_dependencies blocked_session = [(2, 1), (3, 2)]"
    by (simp add: blocked_session_def)
  have g: "get_task blocked_session (Suc 0) = Some (new_task 1 COMPLETED 0 10)"
          "get_task blocked_session 2 = Some (new_task 2 PENDING 1 11)"
    by (simp_all add: get_task_def blocked_session_def new_task_def)
  have i: "t_id (new_task n st p c) = n" "status (new_task n st p c) = st" for n st p c
    by (simp_all add: new_task_def)
  have o: "order_by (tasks blocked_session) =
     [new_task 3 PENDING 9 12, new_task 4 RETRYING 3 13, new_task 2 PENDING 1 11,
      new_task 1 COMPLETED 0 10]"
    by (simp add: order_by_def order_before_def blocked_session_def new_task_def)
  have "get_ready_tasks blocked_session 1 = []"
    using get_ready_tasks_order [of blocked_session 1 "tasks blocked_session"]
    by (simp add: blocked_candidates t g i)
  moreover have "get_ready_tasks blocked_session 2 = [new_task 4 RETRYING 3 13]"
    using get_ready_tasks_order [of blocked_session 2 "tasks blocked_session"]
    by (simp add: blocked_candidates t g i)
  moreover have "get_ready_tasks blocked_session 3 =
                   [new_task 4 RETRYING 3 13, new_task 2 PENDING 1 11]"
    using get_ready_tasks_order [of blocked_session 3 "tasks blocked_session"]
    by (simp add: blocked_candidates t g i)
  ultimately show ?thesis using o by simp
qed

section \<open>Event consumption\<close>

lemma run_handlers_passes:
  "list_all (\<lambda>handler. passes handler event) hs \<Longrightarrow>
   run_handlers hs event = (logged_errors hs event, None)"
  by (induction hs) (auto simp: passes_def logged_errors_def split: Outcome.splits)

lemma run_handlers_finished:
  "snd (run_handlers hs event) = None \<Longrightarrow>
   \<forall>handler \<in> set hs. call handler event \<noteq> Cancelled \<and> (\<forall>e. call handler event \<noteq> BaseRaised e)"
  by (induction hs) (auto split: Outcome.splits if_splits)

lemma process_message_finished:
  assumes "snd (process_message self message) = None"
  shows "\<exists>event. msg_value message = Object event \<and> event_type event \<noteq> Container \<and>
           (\<forall>handler \<in> set (handlers_for self (event_type event)).
              call handler event \<noteq> Cancelled \<and> (\<forall>e. call handler event \<noteq> BaseRaised e))"
proof (cases "msg_value message")
  case NonObject
  with assms show ?thesis by (simp add: process_message_def)
next
  case (Object event)
  with assms have c: "event_type event \<noteq> Container"
    by (auto simp: process_message_def)
  with assms Object have "snd (run_handlers (handlers_for self (event_type event)) event) = None"
    by (auto simp: process_message_def split: EventTypeValue.splits)
  then show ?thesis
    using Object c run_handlers_finished by blast
qed

lemma process_message_passes:
  assumes "msg_value message = Object event" and "event_type event \<noteq> Container"
    and "list_all (\<lambda>handler. passes handler event) (handlers_for self (event_type event))"
  shows "process_message self message =
           (logged_errors (handlers_for self (event_type event)) event, None)"
  using assms
  by (auto simp: process_message_def run_handlers_passes split: EventTypeValue.splits)

lemma consume_message_cases:
  assumes "process_message self message = (logged, escape)"
  shows "consume_message self message =
     (case escape of
        Some (ExceptionEscapes e) \<Rightarrow> (self\<lparr>error_log := error_log self @ logged @ [e]\<rparr>, None)
      | Some CancelledEscapes \<Rightarrow> (self\<lparr>error_log := error_log self @ logged\<rparr>, Some LoopCancelled)
      | Some (BaseEscapes e) \<Rightarrow> (self\<lparr>error_log := error_log self @ logged\<rparr>, Some (LoopRaised e))
      | None \<Rightarrow>
          if enable_auto_commit self then (self\<lparr>error_log := error_log self @ logged\<rparr>, None)
          else
            (case commit_outcome self (topic message, partition message, offset message + 1) of
               Returned \<Rightarrow>
                 (self\<lparr>error_log := error_log self @ logged,
                       commits := commits self @
                         [(topic message, partition message, offset message + 1)]\<rparr>, None)
             | Raised e \<Rightarrow> (self\<lparr>error_log := error_log self @ logged @ [e]\<rparr>, None)
             | Cancelled \<Rightarrow> (self\<lparr>error_log := error_log self @ logged\<rparr>, Some LoopCancelled)
             | BaseRaised e \<Rightarrow>
                 (self\<lparr>error_log := error_log self @ logged\<rparr>, Some (LoopRaised e))))"
  unfolding consume_message_def assms Let_def
  by (simp split: option.split Escape.split Outcome.split)

lemma commits_changed:
  assumes "commits (fst (consume_message self message)) \<noteq> commits self"
  shows "\<not> enable_auto_commit self \<and>
         commit_outcome self (topic message, partition message, offset message + 1) = Returned \<and>
         commits (fst (consume_message self message)) =
           commits self @ [(topic message, partition message, offset message + 1)] \<and>
         snd (process_message self message) = None"
proof -
  obtain logged escape where p: "process_message self message = (logged, escape)"
    by (cases "process_message self message")
  note c = consume_message_cases [OF p]
  show ?thesis
  proof (cases escape)
    case None
    show ?thesis
    proof (cases "enable_auto_commit self")
      case True
      with assms c None show ?thesis by simp
    next
      case False
      show ?thesis
      proof (cases "commit_outcome self (topic message, partition message, offset message + 1)")
        case Returned
        with c None False p show ?thesis by simp
      next
        case (Raised e)
        with assms c None False show ?thesis by simp
      next
        case Cancelled
        with assms c None False show ?thesis by simp
      next
        case (BaseRaised e)
        with assms c None False show ?thesis by simp
      qed
    qed
  next
    case (Some esc)
    with assms c show ?thesis by (cases esc) simp_all
  qed
qed

lemma assigned_handlers:
  "handlers c = handlers task_consumer \<Longrightarrow>
   handlers_for c (Text ''task.assigned'') = [failing_handler, passing_handler]"
  by (simp add: handlers_for_def task_consumer_def)

lemma assigned_run:
  "run_handlers [failing_handler, passing_handler] assigned_event = ([''boom''], None)"
  by (simp add: failing_handler_def passing_handler_def)

lemma assigned_process:
  assumes "handlers c = handlers task_consumer"
  shows "process_message c assigned_message = ([''boom''], None)"
proof -
  have v: "msg_value assigned_message = Object assigned_event"
    by (simp add: assigned_message_def)
  have t: "event_type assigned_event = Text ''task.assigned''"
    by (simp add: assigned_event_def)
  have "process_message c assigned_message =
          run_handlers (handlers_for c (Text ''task.assigned'')) assigned_event"
    by (simp add: process_message_def v t)
  also have "\<dots> = run_handlers [failing_handler, passing_handler] assigned_event"
    by (simp only: assigned_handlers [OF assms])
  also have "\<dots> = ([''boom''], None)"
    by (rule assigned_run)
  finally show ?thesis .
qed

lemma assigned_consume:
  assumes "handlers c = handlers task_consumer" and "\<not> enable_auto_commit c"
    and "commit_outcome c = (\<lambda>position. Returned)"
  shows "consume_message c assigned_message =
           (c\<lparr>error_log := error_log c @ [''boom''],
               commits := commits c @ [(''agent.tasks'', 0, 42)]\<rparr>, None)"
proof -
  have e: "(topic assigned_message, partition assigned_message, offset assigned_message + 1) =
             (''agent.tasks'', 0, 42)"
    by (simp add: assigned_message_def)
  show ?thesis
    unfolding consume_message_cases [OF assigned_process [OF assms(1)]] e
    using assms(2,3) by simp
qed


lemma task_consumer_fields:
  "\<not> enable_auto_commit task_consumer" "commit_outcome task_consumer = (\<lambda>position. Returned)"
  "commits task_consumer = []" "error_log task_consumer = []"
  by (simp_all add: task_consumer_def)

lemma cancelled_consume:
  "consume_message task_consumer cancelled_message = (task_consumer, Some LoopCancelled)"
proof -
  have h: "handlers_for task_consumer (Text ''task.cancelled'') = [cancelled_handler]"
    by (simp add: handlers_for_def task_consumer_def)
  have r: "run_handlers [cancelled_handler] ev = ([], Some CancelledEscapes)" for ev
    by (simp add: cancelled_handler_def)
  have "process_message task_consumer cancelled_message = ([], Some CancelledEscapes)"
    by (simp add: process_message_def cancelled_message_def h r del: run_handlers.simps)
  from consume_message_cases [OF this] show ?thesis
    by simp
qed

lemma assigned_first:
  "consume_message task_consumer assigned_message =
     (task_consumer\<lparr>error_log := [''boom''], commits := [(''agent.tasks'', 0, 42)]\<rparr>, None)"
  using assigned_consume [of task_consumer] by (simp add: task_consumer_fields)

lemma assigned_second:
  "consume_message
     (task_consumer\<lparr>error_log := [''boom''], commits := [(''agent.tasks'', 0, 42)]\<rparr>)
     assigned_message =
     (task_consumer\<lparr>error_log := [''boom'', ''boom''],
        commits := [(''agent.tasks'', 0, 42), (''agent.tasks'', 0, 42)]\<rparr>, None)"
  using assigned_consume
    [of "task_consumer\<lparr>error_log := [''boom''], commits := [(''agent.tasks'', 0, 42)]\<rparr>"]
  by (simp add: task_consumer_fields)

lemma assigned_third:
  "consume_message
     (task_consumer\<lparr>error_log := [''boom'', ''boom''],
        commits := [(''agent.tasks'', 0, 42), (''agent.tasks'', 0, 42)]\<rparr>)
     assigned_message =
     (task_consumer\<lparr>error_log := [''boom'', ''boom'', ''boom''],
        commits := [(''agent.tasks'', 0, 42), (''agent.tasks'', 0, 42),
                    (''agent.tasks'', 0, 42)]\<rparr>, None)"
  using assigned_consume
    [of "task_consumer\<lparr>error_log := [''boom'', ''boom''],
           commits := [(''agent.tasks'', 0, 42), (''agent.tasks'', 0, 42)]\<rparr>"]
  by (simp add: task_consumer_fields)

lemma assigned_thrice:
  "consume task_consumer [assigned_message, assigned_message, assigned_message] =
     (task_consumer\<lparr>error_log := [''boom'', ''boom'', ''boom''],
        commits := [(''agent.tasks'', 0, 42), (''agent.tasks'', 0, 42),
                    (''agent.tasks'', 0, 42)]\<rparr>, Exhausted)"
  by (simp only: consume.simps assigned_first assigned_second assigned_third
        prod.case option.case)

text \<open>
  C5, as stated: the offset is committed only if every handler completed without throwing,
  and a record whose handler failed three times goes to the dead letter topic. The first
  handler of the record raises; the consumer logs the error, runs the second handler and
  commits offset 42. Delivered three times, the record is committed three times, and
  nothing else happens: the consumer has no counter of failures and no producer.
\<close>

theorem consume_commits_after_handler_error:
  "handlers_for task_consumer (Text ''task.assigned'') = [failing_handler, passing_handler] \<and>
   call failing_handler assigned_event = Raised ''boom'' \<and>
   consume_message task_consumer assigned_message =
     (task_consumer\<lparr>error_log := [''boom''], commits := [(''agent.tasks'', 0, 42)]\<rparr>, None) \<and>
   consume task_consumer [assigned_message, assigned_message, assigned_message] =
     (task_consumer\<lparr>error_log := [''boom'', ''boom'', ''boom''],
        commits := [(''agent.tasks'', 0, 42), (''agent.tasks'', 0, 42),
                    (''agent.tasks'', 0, 42)]\<rparr>, Exhausted)"
proof (intro conjI)
  show "handlers_for task_consumer (Text ''task.assigned'') = [failing_handler, passing_handler]"
    by (simp add: assigned_handlers)
  show "call failing_handler assigned_event = Raised ''boom''"
    by (simp add: failing_handler_def)
  show "consume_message task_consumer assigned_message =
     (task_consumer\<lparr>error_log := [''boom''], commits := [(''agent.tasks'', 0, 42)]\<rparr>, None)"
    by (rule assigned_first)
  show "consume task_consumer [assigned_message, assigned_message, assigned_message] =
     (task_consumer\<lparr>error_log := [''boom'', ''boom'', ''boom''],
        commits := [(''agent.tasks'', 0, 42), (''agent.tasks'', 0, 42),
                    (''agent.tasks'', 0, 42)]\<rparr>, Exhausted)"
    by (rule assigned_thrice)
qed

text \<open>
  C5, amended: for a record whose value is a dictionary with a hashable event type, and
  whose handlers each return or raise an exception that the handler loop logs, the consumer
  runs all handlers registered for the event type in order and logs the exceptions, whether
  or not a handler raised; then, unless auto commit is enabled, it commits the record's
  offset plus one, and it goes on with the next record unless the commit is cancelled or
  raises an exception that is not an \<^verbatim>\<open>Exception\<close>. Conversely, when an offset is
  committed, it is the record's offset plus one, auto commit is disabled, the value is a
  dictionary with a hashable event type, and no handler was cancelled or raised an
  exception that is not an \<^verbatim>\<open>Exception\<close>.
\<close>

theorem consume_message_commits:
  "(\<forall>event. msg_value message = Object event \<and> event_type event \<noteq> Container \<and>
      list_all (\<lambda>handler. passes handler event) (handlers_for self (event_type event)) \<longrightarrow>
      snd (consume_message self message) =
        (if enable_auto_commit self then None
         else case commit_outcome self (topic message, partition message, offset message + 1) of
                Cancelled \<Rightarrow> Some LoopCancelled
              | BaseRaised e \<Rightarrow> Some (LoopRaised e)
              | _ \<Rightarrow> None) \<and>
      error_log (fst (consume_message self message)) =
        error_log self @ logged_errors (handlers_for self (event_type event)) event @
        (if enable_auto_commit self then []
         else case commit_outcome self (topic message, partition message, offset message + 1) of
                Raised e \<Rightarrow> [e] | _ \<Rightarrow> []) \<and>
      commits (fst (consume_message self message)) =
        (if \<not> enable_auto_commit self \<and>
            commit_outcome self (topic message, partition message, offset message + 1) = Returned
         then commits self @ [(topic message, partition message, offset message + 1)]
         else commits self)) \<and>
   (commits (fst (consume_message self message)) \<noteq> commits self \<longrightarrow>
      \<not> enable_auto_commit self \<and>
      commit_outcome self (topic message, partition message, offset message + 1) = Returned \<and>
      commits (fst (consume_message self message)) =
        commits self @ [(topic message, partition message, offset message + 1)] \<and>
      (\<exists>event. msg_value message = Object event \<and> event_type event \<noteq> Container \<and>
         (\<forall>handler \<in> set (handlers_for self (event_type event)).
            call handler event \<noteq> Cancelled \<and> (\<forall>e. call handler event \<noteq> BaseRaised e))))"
proof (intro conjI allI impI)
  fix event
  assume a: "msg_value message = Object event \<and> event_type event \<noteq> Container \<and>
      list_all (\<lambda>handler. passes handler event) (handlers_for self (event_type event))"
  then have p: "process_message self message =
                  (logged_errors (handlers_for self (event_type event)) event, None)"
    by (simp add: process_message_passes)
  note c = consume_message_cases [OF p]
  show "snd (consume_message self message) =
        (if enable_auto_commit self then None
         else case commit_outcome self (topic message, partition message, offset message + 1) of
                Cancelled \<Rightarrow> Some LoopCancelled
              | BaseRaised e \<Rightarrow> Some (LoopRaised e)
              | _ \<Rightarrow> None)"
    by (simp add: c split: Outcome.split)
  show "error_log (fst (consume_message self message)) =
        error_log self @ logged_errors (handlers_for self (event_type event)) event @
        (if enable_auto_commit self then []
         else case commit_outcome self (topic message, partition message, offset message + 1) of
                Raised e \<Rightarrow> [e] | _ \<Rightarrow> [])"
    by (simp add: c split: Outcome.split)
  show "commits (fst (consume_message self message)) =
        (if \<not> enable_auto_commit self \<and>
            commit_outcome self (topic message, partition message, offset message + 1) = Returned
         then commits self @ [(topic message, partition message, offset message + 1)]
         else commits self)"
    by (simp add: c split: Outcome.split)
next
  assume c: "commits (fst (consume_message self message)) \<noteq> commits self"
  note d = commits_changed [OF c]
  from d show "\<not> enable_auto_commit self" by simp
  from d show "commit_outcome self (topic message, partition message, offset message + 1) =
        Returned" by simp
  from d show "commits (fst (consume_message self message)) =
        commits self @ [(topic message, partition message, offset message + 1)]" by simp
  from d show "\<exists>event. msg_value message = Object event \<and> event_type event \<noteq> Container \<and>
         (\<forall>handler \<in> set (handlers_for self (event_type event)).
            call handler event \<noteq> Cancelled \<and> (\<forall>e. call handler event \<noteq> BaseRaised e))"
    by (simp add: process_message_finished)
qed

theorem consume_message_commits_witness:
  "msg_value assigned_message = Object assigned_event \<and>
   event_type assigned_event \<noteq> Container \<and>
   list_all (\<lambda>handler. passes handler assigned_event)
     (handlers_for task_consumer (event_type assigned_event)) \<and>
   snd (consume_message task_consumer assigned_message) = None \<and>
   error_log (fst (consume_message task_consumer assigned_message)) = [''boom''] \<and>
   commits (fst (consume_message task_consumer assigned_message)) = [(''agent.tasks'', 0, 42)] \<and>
   commits (fst (consume_message task_consumer assigned_message)) \<noteq> commits task_consumer \<and>
   \<not> enable_auto_commit task_consumer \<and>
   consume_message task_consumer cancelled_message = (task_consumer, Some LoopCancelled)"
proof -
  have v: "msg_value assigned_message = Object assigned_event"
    by (simp add: assigned_message_def)
  have t: "event_type assigned_event \<noteq> Container"
    by (simp add: assigned_event_def)
  have h: "handlers_for task_consumer (event_type assigned_event) =
             [failing_handler, passing_handler]"
    by (simp add: assigned_event_def assigned_handlers)
  have p: "list_all (\<lambda>handler. passes handler assigned_event)
             (handlers_for task_consumer (event_type assigned_event))"
    by (simp add: h passes_def failing_handler_def passing_handler_def)
  have l: "logged_errors [failing_handler, passing_handler] assigned_event = [''boom'']"
    by (simp add: logged_errors_def failing_handler_def passing_handler_def)
  have e: "(topic assigned_message, partition assigned_message, offset assigned_message + 1) =
             (''agent.tasks'', 0, 42)"
    by (simp add: assigned_message_def)
  have "msg_value assigned_message = Object assigned_event \<and>
        event_type assigned_event \<noteq> Container \<and>
        list_all (\<lambda>handler. passes handler assigned_event)
          (handlers_for task_consumer (event_type assigned_event))"
    using v t p by simp
  with consume_message_commits [of assigned_message task_consumer]
  have "snd (consume_message task_consumer assigned_message) =
          (if enable_auto_commit task_consumer then None
           else case commit_outcome task_consumer
                  (topic assigned_message, partition assigned_message,
                   offset assigned_message + 1) of
                  Cancelled \<Rightarrow> Some LoopCancelled
                | BaseRaised e \<Rightarrow> Some (LoopRaised e)
                | _ \<Rightarrow> None) \<and>
        error_log (fst (consume_message task_consumer assigned_message)) =
          error_log task_consumer @
          logged_errors (handlers_for task_consumer (event_type assigned_event)) assigned_event @
          (if enable_auto_commit task_consumer then []
           else case commit_outcome task_consumer
                  (topic assigned_message, partition assigned_message,
                   offset assigned_message + 1) of
                  Raised e \<Rightarrow> [e] | _ \<Rightarrow> []) \<and>
        commits (fst (consume_message task_consumer assigned_message)) =
          (if \<not> enable_auto_commit task_consumer \<and>
              commit_outcome task_consumer
                (topic assigned_message, partition assigned_message,
                 offset assigned_message + 1) = Returned
           then commits task_consumer @
                [(topic assigned_message, partition assigned_message,
                  offset assigned_message + 1)]
           else commits task_consumer)"
    by blast
  then have "snd (consume_message task_consumer assigned_message) = None \<and>
        error_log (fst (consume_message task_consumer assigned_message)) = [''boom''] \<and>
        commits (fst (consume_message task_consumer assigned_message)) = [(''agent.tasks'', 0, 42)]"
    by (simp add: h l e task_consumer_fields)
  then show ?thesis
    using v t p cancelled_consume by (simp add: task_consumer_fields)
qed

section \<open>Available agent\<close>

lemma after_first_task_agents:
  "agents after_first_task =
     [(new_agent 7 IDLE [] 90)\<lparr>a_updated_at := 102\<rparr>, new_agent 8 IDLE [''web_search''] 80]"
  by (simp add: after_first_task_def complete_task_def start_task_def assign_task_def
        skills_session_def new_task_def new_agent_def new_metadata_def get_task_def get_agent_def
        put_task_def put_agent_def publish_def free_agent_def Let_def)

lemma heartbeat_before_total: "\<not> heartbeat_before a b \<Longrightarrow> heartbeat_before b a"
  by (auto simp: heartbeat_before_def split: option.splits)

lemma heartbeat_before_trans:
  "heartbeat_before a b \<Longrightarrow> heartbeat_before b c \<Longrightarrow> heartbeat_before a c"
  by (auto simp: heartbeat_before_def split: option.splits)

lemma first_by_heartbeat_None: "first_by_heartbeat rows = None \<longleftrightarrow> rows = []"
  by (induction rows) (auto split: option.splits)

lemma first_by_heartbeat_Some:
  "first_by_heartbeat rows = Some a \<Longrightarrow>
   a \<in> set rows \<and> (\<forall>b \<in> set rows. heartbeat_before a b)"
proof (induction rows arbitrary: a)
  case Nil
  then show ?case by simp
next
  case (Cons r rows)
  show ?case
  proof (cases "first_by_heartbeat rows")
    case None
    then have "rows = []" by (simp add: first_by_heartbeat_None)
    with Cons.prems show ?thesis by (auto simp: heartbeat_before_def split: option.splits)
  next
    case (Some b)
    note ih = Cons.IH [OF Some]
    show ?thesis
    proof (cases "heartbeat_before r b")
      case True
      with Some Cons.prems have "a = r" by simp
      moreover have "heartbeat_before r r" using heartbeat_before_total by blast
      moreover have "\<forall>c \<in> set rows. heartbeat_before r c"
        using ih True heartbeat_before_trans by blast
      ultimately show ?thesis by simp
    next
      case False
      with Some Cons.prems have "a = b" by simp
      moreover have "heartbeat_before b r" using False heartbeat_before_total by blast
      ultimately show ?thesis using ih by simp
    qed
  qed
qed

lemma idle_agents_iff:
  "a \<in> set (idle_agents session agent_type) \<longleftrightarrow>
     a \<in> set (agents session) \<and> a_status a = IDLE \<and>
     (case agent_type of None \<Rightarrow> True | Some type_value \<Rightarrow> a_type a = type_value)"
  by (auto simp: idle_agents_def Let_def split: option.splits)

lemma first_by_heartbeat_strict:
  assumes "a \<in> set rows" and "\<forall>b \<in> set rows. b \<noteq> a \<longrightarrow> \<not> heartbeat_before b a"
  shows "first_by_heartbeat rows = Some a"
proof (cases "first_by_heartbeat rows")
  case None
  with assms(1) show ?thesis by (simp add: first_by_heartbeat_None)
next
  case (Some c)
  note m = first_by_heartbeat_Some [OF Some]
  from m assms(1) have "heartbeat_before c a" by simp
  with m assms(2) have "c = a" by blast
  with Some show ?thesis by simp
qed

lemma skilled_idle:
  "idle_agents skilled_session (Some RESEARCH) =
     [new_agent 8 IDLE [''web_search''] 80, new_agent 7 IDLE [''summarize'', ''web_search''] 90]"
  by (simp add: idle_agents_def skilled_session_def new_agent_def Let_def)

lemma skills_idle:
  "idle_agents skills_session (Some RESEARCH) =
     [new_agent 7 IDLE [] 90, new_agent 8 IDLE [''web_search''] 80]"
  by (simp add: idle_agents_def skills_session_def new_agent_def Let_def)

text \<open>
  C8, as stated: \<^verbatim>\<open>get_available_agent\<close> returns the least recently assigned idle
  agent among those that match the type and have every required skill, and none only when
  there is no such agent. With the skill \<^verbatim>\<open>web_search\<close> required it returns none,
  although agent 8 is idle, of the type and has the skill. And after agent 7 has been
  assigned a task and has completed it, while agent 8 was never assigned one, it returns
  agent 7 again.
\<close>

theorem get_available_agent_counterexample:
  "get_agent skills_session 8 = Some (new_agent 8 IDLE [''web_search''] 80) \<and>
   a_type (new_agent 8 IDLE [''web_search''] 80) = RESEARCH \<and>
   get_available_agent skills_session (Some RESEARCH) (Some [''web_search'']) = None \<and>
   fst (assign_task skills_session 100 1 7) \<and>
   map a_status (agents after_first_task) = [IDLE, IDLE] \<and>
   map_option a_id (get_available_agent after_first_task None None) = Some 7"
  by (simp add: after_first_task_agents get_available_agent_def idle_agents_def)
     (simp add: skills_session_def new_agent_def new_task_def get_agent_def get_task_def
        get_available_agent_def idle_agents_def assign_task_def heartbeat_before_def Let_def)

text \<open>
  C8, amended: an agent that \<^verbatim>\<open>get_available_agent\<close> returns is idle, matches the
  type filter and has every required skill. The idle agent of the type that stands strictly
  before every other one in the descending order of the last heartbeat (the most recently
  active one, not the least recently assigned one) is returned whenever it has every
  required skill. When there is no idle agent of the type, no agent is returned. When no
  skill is required, no agent is returned only then, and the agent returned stands first
  among the idle agents of the type in the descending order of the last heartbeat.
\<close>

theorem get_available_agent_most_recent_heartbeat:
  "(\<forall>agent. get_available_agent session agent_type required = Some agent \<longrightarrow>
      agent \<in> set (agents session) \<and> a_status agent = IDLE \<and>
      (case agent_type of None \<Rightarrow> True | Some type_value \<Rightarrow> a_type agent = type_value) \<and>
      (\<forall>caps. required = Some caps \<longrightarrow> set caps \<subseteq> set (skills agent))) \<and>
   (\<forall>agent \<in> set (idle_agents session agent_type).
      (\<forall>b \<in> set (idle_agents session agent_type). b \<noteq> agent \<longrightarrow> \<not> heartbeat_before b agent) \<and>
      (\<forall>caps. required = Some caps \<longrightarrow> set caps \<subseteq> set (skills agent)) \<longrightarrow>
      get_available_agent session agent_type required = Some agent) \<and>
   (\<forall>b. b \<in> set (idle_agents session agent_type) \<longleftrightarrow>
      b \<in> set (agents session) \<and> a_status b = IDLE \<and>
      (case agent_type of None \<Rightarrow> True | Some type_value \<Rightarrow> a_type b = type_value)) \<and>
   (idle_agents session agent_type = [] \<longrightarrow>
      get_available_agent session agent_type required = None) \<and>
   (required = None \<or> required = Some [] \<longrightarrow>
      (get_available_agent session agent_type required = None \<longleftrightarrow>
       idle_agents session agent_type = []) \<and>
      (\<forall>agent. get_available_agent session agent_type required = Some agent \<longrightarrow>
         (\<forall>b \<in> set (idle_agents session agent_type). heartbeat_before agent b)))"
proof (intro conjI allI impI ballI)
  fix agent
  assume g: "get_available_agent session agent_type required = Some agent"
  then have f: "first_by_heartbeat (idle_agents session agent_type) = Some agent"
    by (auto simp: get_available_agent_def split: option.splits if_splits)
  note m = first_by_heartbeat_Some [OF f]
  from m show "agent \<in> set (agents session)" by (simp add: idle_agents_iff)
  from m show "a_status agent = IDLE" by (simp add: idle_agents_iff)
  from m show "case agent_type of None \<Rightarrow> True | Some type_value \<Rightarrow> a_type agent = type_value"
    by (simp add: idle_agents_iff)
  fix caps assume "required = Some caps"
  with g f show "set caps \<subseteq> set (skills agent)"
    by (auto simp: get_available_agent_def list_all_iff split: if_splits)
next
  fix agent
  assume i: "agent \<in> set (idle_agents session agent_type)"
    and a: "(\<forall>b \<in> set (idle_agents session agent_type). b \<noteq> agent \<longrightarrow> \<not> heartbeat_before b agent) \<and>
      (\<forall>caps. required = Some caps \<longrightarrow> set caps \<subseteq> set (skills agent))"
  from i a have f: "first_by_heartbeat (idle_agents session agent_type) = Some agent"
    by (simp add: first_by_heartbeat_strict)
  from a have "\<forall>caps. required = Some caps \<longrightarrow> list_all (\<lambda>cap. cap \<in> set (skills agent)) caps"
    by (auto simp: list_all_iff)
  then show "get_available_agent session agent_type required = Some agent"
    by (simp add: get_available_agent_def f split: option.split)
next
  fix b
  show "b \<in> set (idle_agents session agent_type) \<longleftrightarrow>
      b \<in> set (agents session) \<and> a_status b = IDLE \<and>
      (case agent_type of None \<Rightarrow> True | Some type_value \<Rightarrow> a_type b = type_value)"
    by (rule idle_agents_iff)
next
  assume "idle_agents session agent_type = []"
  then show "get_available_agent session agent_type required = None"
    by (simp add: get_available_agent_def)
next
  assume "required = None \<or> required = Some []"
  then show "get_available_agent session agent_type required = None \<longleftrightarrow>
       idle_agents session agent_type = []"
    by (auto simp: get_available_agent_def first_by_heartbeat_None split: option.splits)
next
  fix agent b
  assume "required = None \<or> required = Some []"
    and g: "get_available_agent session agent_type required = Some agent"
    and b: "b \<in> set (idle_agents session agent_type)"
  from g have f: "first_by_heartbeat (idle_agents session agent_type) = Some agent"
    by (auto simp: get_available_agent_def split: option.splits if_splits)
  from first_by_heartbeat_Some [OF f] b show "heartbeat_before agent b" by simp
qed

theorem get_available_agent_most_recent_heartbeat_witness:
  "new_agent 7 IDLE [''summarize'', ''web_search''] 90
     \<in> set (idle_agents skilled_session (Some RESEARCH)) \<and>
   \<not> heartbeat_before (new_agent 8 IDLE [''web_search''] 80)
        (new_agent 7 IDLE [''summarize'', ''web_search''] 90) \<and>
   set [''web_search''] \<subseteq> set (skills (new_agent 7 IDLE [''summarize'', ''web_search''] 90)) \<and>
   get_available_agent skilled_session (Some RESEARCH) (Some [''web_search'']) =
     Some (new_agent 7 IDLE [''summarize'', ''web_search''] 90) \<and>
   a_status (new_agent 7 IDLE [''summarize'', ''web_search''] 90) = IDLE \<and>
   a_type (new_agent 7 IDLE [''summarize'', ''web_search''] 90) = RESEARCH \<and>
   get_available_agent skills_session (Some RESEARCH) None = Some (new_agent 7 IDLE [] 90) \<and>
   heartbeat_before (new_agent 7 IDLE [] 90) (new_agent 8 IDLE [''web_search''] 80) \<and>
   idle_agents skilled_session (Some WORKER) = [] \<and>
   get_available_agent skilled_session (Some WORKER) (Some [''web_search'']) = None"
proof -
  let ?a7 = "new_agent 7 IDLE [''summarize'', ''web_search''] 90"
  let ?a8 = "new_agent 8 IDLE [''web_search''] 80"
  have i: "?a7 \<in> set (idle_agents skilled_session (Some RESEARCH))"
    by (simp add: skilled_idle)
  have h: "\<not> heartbeat_before ?a8 ?a7"
    by (simp add: heartbeat_before_def new_agent_def)
  have s: "set [''web_search''] \<subseteq> set (skills ?a7)"
    by (simp add: new_agent_def)
  have o: "\<forall>b \<in> set (idle_agents skilled_session (Some RESEARCH)).
             b \<noteq> ?a7 \<longrightarrow> \<not> heartbeat_before b ?a7"
    using h by (simp add: skilled_idle)
  have c: "\<forall>caps. Some [''web_search''] = Some caps \<longrightarrow> set caps \<subseteq> set (skills ?a7)"
    using s by simp
  from get_available_agent_most_recent_heartbeat
         [of skilled_session "Some RESEARCH" "Some [''web_search'']"] i o c
  have g: "get_available_agent skilled_session (Some RESEARCH) (Some [''web_search'']) = Some ?a7"
    by blast
  with get_available_agent_most_recent_heartbeat
         [of skilled_session "Some RESEARCH" "Some [''web_search'']"]
  have t: "a_status ?a7 = IDLE \<and> a_type ?a7 = RESEARCH"
    by simp
  have g2: "get_available_agent skills_session (Some RESEARCH) None = Some (new_agent 7 IDLE [] 90)"
    by (simp add: get_available_agent_def skills_idle heartbeat_before_def new_agent_def)
  have "new_agent 8 IDLE [''web_search''] 80 \<in> set (idle_agents skills_session (Some RESEARCH))"
    by (simp add: skills_idle)
  with g2 get_available_agent_most_recent_heartbeat [of skills_session "Some RESEARCH" None]
  have b: "heartbeat_before (new_agent 7 IDLE [] 90) (new_agent 8 IDLE [''web_search''] 80)"
    by blast
  have e: "idle_agents skilled_session (Some WORKER) = []"
    by (simp add: idle_agents_def skilled_session_def new_agent_def Let_def)
  with get_available_agent_most_recent_heartbeat
         [of skilled_session "Some WORKER" "Some [''web_search'']"]
  have n: "get_available_agent skilled_session (Some WORKER) (Some [''web_search'']) = None"
    by blast
  show ?thesis
    using i h s g t g2 b e n by simp
qed

section \<open>Payload signature\<close>

lemma length_digest: "length (digest H) = 32"
  by (induction H rule: digest.induct) (simp add: to_be32_def)

lemma length_sha256: "length (sha256 msg) = 32"
  by (simp add: sha256_def Let_def length_digest)

lemma length_hmac_sha256: "length (hmac_sha256 key msg) = 32"
  by (simp add: hmac_sha256_def Let_def length_sha256)

lemma length_hexdigest: "length (hexdigest bs) = 2 * length bs"
  by (induction bs) (simp_all add: hexdigest_def)

lemma hex_digit_lower: "unat n < 16 \<Longrightarrow> hex_digit n \<in> set ''0123456789abcdef''"
  unfolding hex_digit_def by (rule nth_mem) simp

lemma high_nibble: "unat (drop_bit 4 (b :: byte)) < 16"
proof -
  have "unat b < 256"
    using unsigned_less [of b] by simp
  moreover have "unat (drop_bit 4 b) = drop_bit 4 (unat b)"
    by (rule unat_drop_bit_eq)
  moreover have "drop_bit 4 (unat b) = unat b div 2 ^ 4"
    by (rule drop_bit_eq_div)
  ultimately show ?thesis
    by simp
qed

lemma low_nibble: "unat ((b :: byte) AND 0x0f) < 16"
proof -
  have "b AND 0x0f \<le> 0x0f" by (rule word_and_le1)
  then have "unat (b AND 0x0f) \<le> unat (0x0f :: byte)" by (simp only: word_le_nat_alt)
  then show ?thesis by simp
qed

lemma hexdigest_lower: "set (hexdigest bs) \<subseteq> set ''0123456789abcdef''"
proof (induction bs)
  case Nil
  then show ?case by (simp add: hexdigest_def)
next
  case (Cons b bs)
  have "hexdigest (b # bs) = hex_digit (drop_bit 4 b) # hex_digit (b AND 0x0f) # hexdigest bs"
    by (simp add: hexdigest_def)
  then show ?case
    using Cons hex_digit_lower [OF high_nibble [of b]] hex_digit_lower [OF low_nibble [of b]]
    by simp
qed

text \<open>
  The model against a known value: the signature of
  \<^verbatim>\<open>The quick brown fox jumps over the lazy dog\<close> under the secret
  \<^verbatim>\<open>key\<close>, computed in two halves.
\<close>

lemma fox_inner_hash:
  "sha256 (map (\<lambda>b. b XOR 0x36) (encode ''key'' @ replicate (64 - length (encode ''key'')) 0) @
           encode ''The quick brown fox jumps over the lazy dog'') = fox_inner"
  by code_simp

lemma fox_outer_hash:
  "hexdigest
     (sha256 (map (\<lambda>b. b XOR 0x5c) (encode ''key'' @ replicate (64 - length (encode ''key'')) 0) @
              fox_inner)) =
   ''f7bc83f430538424b13298e6aa6fb143ef4d59a14946175997479dbc2d1a3cd8''"
  by code_simp

lemma sign_payload_fox:
  "sign_payload ''The quick brown fox jumps over the lazy dog'' ''key'' =
   ''f7bc83f430538424b13298e6aa6fb143ef4d59a14946175997479dbc2d1a3cd8''"
proof -
  have k: "(if 64 < length (encode ''key'') then sha256 (encode ''key'') else encode ''key'') =
           encode ''key''"
    by (simp add: encode_def)
  show ?thesis
    unfolding sign_payload_def hmac_sha256_def Let_def k fox_inner_hash fox_outer_hash
    by (rule refl)
qed

lemma abc_hash:
  "hexdigest (sha256 (encode ''abc'')) =
   ''ba7816bf8f01cfea414140de5dae2223b00361a396177a9cb410ff61f20015ad''"
  by code_simp

lemma long_secret_hashed: "sha256 (encode long_secret) = long_secret_hash"
  by code_simp

lemma long_inner_hash:
  "sha256 (map (\<lambda>b. b XOR 0x36)
             (long_secret_hash @ replicate (64 - length long_secret_hash) 0) @
           encode signed_body) = long_inner"
  by code_simp

lemma long_outer_hash:
  "hexdigest
     (sha256 (map (\<lambda>b. b XOR 0x5c)
                (long_secret_hash @ replicate (64 - length long_secret_hash) 0) @
              long_inner)) =
   ''151d6fb840aa30136d37b0d5bbc9cc9b6dea4ab69517e231d70b6af4130ba0f1''"
  by code_simp

lemma long_secret_length: "64 < length (encode long_secret)"
  by (simp add: encode_def long_secret_def)

lemma sign_payload_long:
  "sign_payload signed_body long_secret =
   ''151d6fb840aa30136d37b0d5bbc9cc9b6dea4ab69517e231d70b6af4130ba0f1''"
proof -
  have k: "(if 64 < length (encode long_secret) then sha256 (encode long_secret)
            else encode long_secret) = long_secret_hash"
    unfolding if_P [OF long_secret_length] by (rule long_secret_hashed)
  show ?thesis
    unfolding sign_payload_def hmac_sha256_def Let_def k long_inner_hash long_outer_hash
    by (rule refl)
qed

lemma hmac_sha256_long_key:
  assumes "64 < length key"
  shows "hmac_sha256 key msg = hmac_sha256 (sha256 key) msg"
proof -
  have "\<not> 64 < length (sha256 key)"
    by (simp add: length_sha256)
  then show ?thesis
    using assms unfolding hmac_sha256_def Let_def by (simp only: if_True if_False)
qed

text \<open>
  C9: for every payload and secret the signature is the hexadecimal form of the
  HMAC-SHA256 of the payload under the secret, 64 lowercase hexadecimal digits, and
  verifying the signature of a payload against the same payload and secret succeeds.
  HMAC-SHA256 is the model of \<^verbatim>\<open>hashlib\<close> and \<^verbatim>\<open>hmac\<close> above: it gives the
  known values of SHA-256 for \<^verbatim>\<open>abc\<close> and of HMAC-SHA256 for a short and for a
  long secret, and a secret longer than a block counts as its hash.
\<close>

theorem sign_payload_verify:
  "sign_payload payload secret = hexdigest (hmac_sha256 (encode secret) (encode payload)) \<and>
   hexdigest (sha256 (encode ''abc'')) =
     ''ba7816bf8f01cfea414140de5dae2223b00361a396177a9cb410ff61f20015ad'' \<and>
   sign_payload ''The quick brown fox jumps over the lazy dog'' ''key'' =
     ''f7bc83f430538424b13298e6aa6fb143ef4d59a14946175997479dbc2d1a3cd8'' \<and>
   sign_payload signed_body long_secret =
     ''151d6fb840aa30136d37b0d5bbc9cc9b6dea4ab69517e231d70b6af4130ba0f1'' \<and>
   (64 < length (encode secret) \<longrightarrow>
      sign_payload payload secret =
        hexdigest (hmac_sha256 (sha256 (encode secret)) (encode payload))) \<and>
   length (sign_payload payload secret) = 64 \<and>
   set (sign_payload payload secret) \<subseteq> set ''0123456789abcdef'' \<and>
   verify (sign_payload payload secret) payload secret"
proof (intro conjI impI)
  show "sign_payload payload secret = hexdigest (hmac_sha256 (encode secret) (encode payload))"
    by (simp add: sign_payload_def)
  show "hexdigest (sha256 (encode ''abc'')) =
     ''ba7816bf8f01cfea414140de5dae2223b00361a396177a9cb410ff61f20015ad''"
    by (rule abc_hash)
  show "sign_payload ''The quick brown fox jumps over the lazy dog'' ''key'' =
     ''f7bc83f430538424b13298e6aa6fb143ef4d59a14946175997479dbc2d1a3cd8''"
    by (rule sign_payload_fox)
  show "sign_payload signed_body long_secret =
     ''151d6fb840aa30136d37b0d5bbc9cc9b6dea4ab69517e231d70b6af4130ba0f1''"
    by (rule sign_payload_long)
  show "sign_payload payload secret =
        hexdigest (hmac_sha256 (sha256 (encode secret)) (encode payload))"
    if "64 < length (encode secret)"
    unfolding sign_payload_def using that by (simp only: hmac_sha256_long_key)
  show "length (sign_payload payload secret) = 64"
    by (simp add: sign_payload_def length_hexdigest length_hmac_sha256)
  show "set (sign_payload payload secret) \<subseteq> set ''0123456789abcdef''"
    unfolding sign_payload_def by (rule hexdigest_lower)
  show "verify (sign_payload payload secret) payload secret"
    by (simp add: verify_def)
qed

theorem sign_payload_verify_witness:
  "64 < length (encode long_secret) \<and>
   sign_payload signed_body long_secret =
     hexdigest (hmac_sha256 (sha256 (encode long_secret)) (encode signed_body)) \<and>
   sign_payload signed_body long_secret =
     ''151d6fb840aa30136d37b0d5bbc9cc9b6dea4ab69517e231d70b6af4130ba0f1'' \<and>
   length (sign_payload signed_body long_secret) = 64 \<and>
   verify ''151d6fb840aa30136d37b0d5bbc9cc9b6dea4ab69517e231d70b6af4130ba0f1'' signed_body long_secret"
proof -
  note t = sign_payload_verify [of signed_body long_secret]
  from t have v: "sign_payload signed_body long_secret =
     ''151d6fb840aa30136d37b0d5bbc9cc9b6dea4ab69517e231d70b6af4130ba0f1''"
    by (rule conjunct1 [OF conjunct2 [OF conjunct2 [OF conjunct2]]])
  from t long_secret_length have h: "sign_payload signed_body long_secret =
     hexdigest (hmac_sha256 (sha256 (encode long_secret)) (encode signed_body))"
    by blast
  from t have l: "length (sign_payload signed_body long_secret) = 64"
    by blast
  from t have "verify (sign_payload signed_body long_secret) signed_body long_secret"
    by blast
  then have r: "verify ''151d6fb840aa30136d37b0d5bbc9cc9b6dea4ab69517e231d70b6af4130ba0f1'' signed_body long_secret"
    unfolding v .
  show ?thesis
    using long_secret_length h v l r by (intro conjI)
qed

end
